theory Spec2Isabelle
  imports Main "HOL-Library.Sublist" "HOL-Library.List_Lexorder" "HOL-Library.Char_ord"
begin

section \<open>Image ingestion (upload_images.js) and the read-side service (server.js)\<close>

text \<open>
  The ingestion script walks a directory tree of images, derives three WebP variants of
  every file with the sharp library, uploads two of them to a GridFS bucket and inserts
  one metadata document per file into the collection \<open>imagesMeta\<close>. The server streams
  a stored blob by its id.

  The embedding follows the script function by function. Everything the script does
  through a library (the filesystem, sharp, the MongoDB driver, the clock) is a field of
  the record \<open>env\<close>: a call that can throw returns an \<open>option\<close>, and the model turns
  \<open>None\<close> into the exception the script sees. The database is an explicit state that
  every function takes and returns; an exception is the value \<open>Inl e\<close>, returned with
  the state reached when it was thrown.
\<close>

subsection \<open>Paths and file names\<close>

type_synonym buffer = "nat list"
type_synonym path = "string list"
type_synonym object_id = nat

text \<open>
  A path is the list of its components; \<open>path.join(dir, name)\<close> appends a component
  and \<open>path.basename\<close> is the last one (the empty string for the empty path).
\<close>

definition path_join :: "path \<Rightarrow> string \<Rightarrow> path" where
  "path_join dir name = dir @ [name]"

definition basename :: "path \<Rightarrow> string" where
  "basename p = (if p = [] then [] else last p)"

text \<open>
  The regular expression \<^verbatim>\<open>/\.(jpg|jpeg|png|webp)$/i\<close>. Without the \<open>u\<close> flag the
  \<open>i\<close> flag folds only the ASCII letters onto each other, so matching is done on the
  name with \<open>A\<close> to \<open>Z\<close> lowered. The pattern is anchored at the end of the name only:
  \<open>test\<close> asks for one of the four suffixes, \<open>replace\<close> removes the one that is there.
\<close>

definition lower_ascii :: "char \<Rightarrow> char" where
  "lower_ascii c =
     (case map_of (zip ''ABCDEFGHIJKLMNOPQRSTUVWXYZ'' ''abcdefghijklmnopqrstuvwxyz'') c of
        Some l \<Rightarrow> l
      | None \<Rightarrow> c)"

definition image_exts :: "string list" where
  "image_exts = [''jpg'', ''jpeg'', ''png'', ''webp'']"

definition ends_with_ext :: "string \<Rightarrow> string \<Rightarrow> bool" where
  "ends_with_ext name ext = suffix (CHR ''.'' # ext) (map lower_ascii name)"

definition is_image_name :: "string \<Rightarrow> bool" where
  "is_image_name name = list_ex (ends_with_ext name) image_exts"

definition strip_image_ext :: "string \<Rightarrow> string" where
  "strip_image_ext name =
     (case find (ends_with_ext name) image_exts of
        None \<Rightarrow> name
      | Some ext \<Rightarrow> take (length name - Suc (length ext)) name)"

subsection \<open>Buffer.toString("base64")\<close>

definition b64_alphabet :: string where
  "b64_alphabet = ''ABCDEFGHIJKLMNOPQRSTUVWXYZabcdefghijklmnopqrstuvwxyz0123456789+/''"

definition b64_char :: "nat \<Rightarrow> char" where
  "b64_char n = b64_alphabet ! (n mod 64)"

fun base64 :: "buffer \<Rightarrow> string" where
  "base64 (a # b # c # rest) =
     b64_char (a div 4) # b64_char ((a mod 4) * 16 + b div 16) #
     b64_char ((b mod 16) * 4 + c div 64) # b64_char (c mod 64) # base64 rest"
| "base64 [a, b] =
     [b64_char (a div 4), b64_char ((a mod 4) * 16 + b div 16),
      b64_char ((b mod 16) * 4), CHR ''='']"
| "base64 [a] = [b64_char (a div 4), b64_char ((a mod 4) * 16), CHR ''='', CHR ''='']"
| "base64 [] = []"

subsection \<open>The sharp pipelines\<close>

text \<open>
  A pipeline is what the script asks of sharp between \<open>sharp(buffer)\<close> and
  \<open>toBuffer()\<close>: \<open>resize({ width, withoutEnlargement })\<close>, an optional \<open>blur(sigma)\<close> and
  \<open>webp({ quality })\<close>. \<open>withoutEnlargement\<close> is false when the option is left out.
\<close>

record pipeline =
  resize_width :: nat
  withoutEnlargement :: bool
  blur_sigma :: "nat option"
  webp_quality :: nat

definition thumb_pipeline :: pipeline where
  "thumb_pipeline =
     \<lparr>resize_width = 600, withoutEnlargement = True, blur_sigma = None, webp_quality = 75\<rparr>"

definition full_pipeline :: pipeline where
  "full_pipeline =
     \<lparr>resize_width = 1600, withoutEnlargement = True, blur_sigma = None, webp_quality = 82\<rparr>"

definition lqip_pipeline :: pipeline where
  "lqip_pipeline =
     \<lparr>resize_width = 20, withoutEnlargement = False, blur_sigma = Some 1, webp_quality = 30\<rparr>"

text \<open>
  The width sharp gives the output of a resize that names a width only, for a source of
  width \<open>w\<close>: the requested width, except that with \<open>withoutEnlargement\<close> a source
  narrower than the request keeps its own width. This is the library's documented
  geometry, written here because the widths of the variants are decided by it together
  with the options the script passes.
\<close>

definition variant_width :: "pipeline \<Rightarrow> nat \<Rightarrow> nat" where
  "variant_width p w =
     (if withoutEnlargement p \<and> w < resize_width p then w else resize_width p)"

subsection \<open>The blob store, the metadata index and the console\<close>

datatype error =
    Connection_error
  | Fs_error
  | Decode_error
  | Upload_error
  | Upload_no_file
  | Index_write_error
  | Close_error

text \<open>
  How \<open>pipeline(bufferToStream(buffer), uploadStream)\<close> can end: it rejects; it
  resolves after the \<open>finish\<close> event handed over the file document; or it resolves
  although the event handed over nothing.
\<close>

datatype upload_outcome = Finished_with_file | Finished_without_file | Stream_fault

record tags =
  tag_category :: string
  tag_subcategory :: "string option"
  tag_subsubcategory :: "string option"
  tag_variant :: string

record gridfs_file =
  file_id :: object_id
  file_filename :: string
  file_contentType :: string
  file_metadata :: tags
  file_data :: buffer

record image_meta =
  meta_width :: nat
  meta_height :: nat
  meta_format :: string

record meta_doc =
  doc_filename :: string
  doc_alt :: string
  doc_category :: string
  doc_subcategory :: "string option"
  doc_subsubcategory :: "string option"
  doc_thumbnailId :: object_id
  doc_fullId :: object_id
  doc_lqip :: string
  doc_width :: "nat option"
  doc_height :: "nat option"
  doc_format :: "string option"
  doc_createdAt :: nat

text \<open>
  The lines the script prints, without their decoration:
  \<^item> \<open>Connected_line\<close>: "Successfully connected to MongoDB."
  \<^item> \<open>Processing_line f category subcat subsub\<close>: "Processing f -> category -> ...",
    with "(none)" after the category when there is no subcategory;
  \<^item> \<open>Skip_line filename\<close>: "FAILED: Could not read file filename. Skipping.";
  \<^item> \<open>Success_line filename\<close>: "Success: filename inserted.";
  \<^item> \<open>Complete_line\<close>: "*** COMPLETE: All images processed. ***";
  \<^item> \<open>Fatal_connection_line\<close>: "*** FATAL CONNECTION ERROR ***" and its two lines;
  \<^item> \<open>Fatal_script_line e\<close>: "FATAL SCRIPT ERROR (Raw Message Below):" and the error.
\<close>

datatype log_line =
    Connected_line
  | Processing_line string string "string option" "string option"
  | Skip_line string
  | Success_line string
  | Complete_line
  | Fatal_connection_line
  | Fatal_script_line error

text \<open>
  The requests sent to the two collaborators, in the order they are sent: an upload
  with the name it gives the blob and how it ended, an \<open>insertOne\<close> with its document and
  whether it was acknowledged.
\<close>

datatype store_call = Upload_call string upload_outcome | Insert_call meta_doc bool

record state =
  files :: "gridfs_file list"
  imagesMeta :: "(object_id \<times> meta_doc) list"
  next_id :: nat
  console :: "log_line list"
  calls :: "store_call list"

text \<open>
  \<open>files\<close> is the collection \<open>images.files\<close> of the bucket, \<open>imagesMeta\<close> the metadata
  collection, both in insertion order. Identifiers are handed out from the counter
  \<open>next_id\<close>.
\<close>

record env =
  MONGO_URI :: string
  BASE_IMAGES_DIR :: path
  connect_ok :: bool
  close_ok :: bool
  readdirSync :: "path \<Rightarrow> string list option"
  isDirectory :: "path \<Rightarrow> bool option"
  readFileSync :: "path \<Rightarrow> buffer option"
  sharp_metadata :: "buffer \<Rightarrow> image_meta option"
  sharp_toBuffer :: "pipeline \<Rightarrow> buffer \<Rightarrow> buffer option"
  upload_outcome_of :: "state \<Rightarrow> string \<Rightarrow> tags \<Rightarrow> upload_outcome"
  insert_ok :: "state \<Rightarrow> meta_doc \<Rightarrow> bool"
  now :: "state \<Rightarrow> nat"

text \<open>
  \<open>isDirectory env p\<close> is \<open>fs.statSync(p).isDirectory()\<close>. The three filesystem calls
  depend on the path only: the script does not write to the tree it reads. How an
  upload ends and whether an insert is acknowledged may depend on everything that
  happened before, so these two take the state.
\<close>

definition log :: "log_line \<Rightarrow> state \<Rightarrow> state" where
  "log l s = s\<lparr>console := console s @ [l]\<rparr>"

subsection \<open>uploadBufferToGridFS\<close>

text \<open>
  The file document exists in the bucket once the stream has finished, whether or not
  the \<open>finish\<close> event handed it to the script; a rejected pipeline leaves no file
  document. Without the document the function throws.
\<close>

definition uploadBufferToGridFS ::
  "env \<Rightarrow> buffer \<Rightarrow> string \<Rightarrow> tags \<Rightarrow> string \<Rightarrow> state \<Rightarrow> (error + gridfs_file) \<times> state" where
  "uploadBufferToGridFS env buf fname metadata contentType s =
     (let outcome = upload_outcome_of env s fname metadata;
          fileMetadata = \<lparr>file_id = next_id s, file_filename = fname,
            file_contentType = contentType, file_metadata = metadata, file_data = buf\<rparr>;
          s' = s\<lparr>calls := calls s @ [Upload_call fname outcome]\<rparr>;
          stored = s'\<lparr>files := files s @ [fileMetadata], next_id := Suc (next_id s)\<rparr>
      in case outcome of
           Stream_fault \<Rightarrow> (Inl Upload_error, s')
         | Finished_without_file \<Rightarrow> (Inl Upload_no_file, stored)
         | Finished_with_file \<Rightarrow> (Inr fileMetadata, stored))"

definition insertOne :: "env \<Rightarrow> meta_doc \<Rightarrow> state \<Rightarrow> (error + object_id) \<times> state" where
  "insertOne env doc s =
     (let ok = insert_ok env s doc;
          s' = s\<lparr>calls := calls s @ [Insert_call doc ok]\<rparr>
      in if ok
         then (Inr (next_id s),
               s'\<lparr>imagesMeta := imagesMeta s @ [(next_id s, doc)], next_id := Suc (next_id s)\<rparr>)
         else (Inl Index_write_error, s'))"

subsection \<open>processFile\<close>

text \<open>\<open>x || null\<close> on a string that may be null, and on a number.\<close>

definition string_or_null :: "string option \<Rightarrow> string option" where
  "string_or_null x = (case x of None \<Rightarrow> None | Some v \<Rightarrow> if v = [] then None else Some v)"

definition number_or_null :: "nat \<Rightarrow> nat option" where
  "number_or_null n = (if n = 0 then None else Some n)"

definition processFile ::
  "env \<Rightarrow> path \<Rightarrow> string \<Rightarrow> string option \<Rightarrow> string option \<Rightarrow> state
     \<Rightarrow> (error + object_id option) \<times> state" where
  "processFile env filePath category subcategory subsubcategory s =
     (let filename = basename filePath in
      case readFileSync env filePath of
        None \<Rightarrow> (Inr None, log (Skip_line filename) s)
      | Some originalBuffer \<Rightarrow>
      (case sharp_metadata env originalBuffer of
        None \<Rightarrow> (Inl Decode_error, s)
      | Some sharpMeta \<Rightarrow>
      (case sharp_toBuffer env thumb_pipeline originalBuffer of
        None \<Rightarrow> (Inl Decode_error, s)
      | Some thumbBuffer \<Rightarrow>
      (case sharp_toBuffer env full_pipeline originalBuffer of
        None \<Rightarrow> (Inl Decode_error, s)
      | Some fullBuffer \<Rightarrow>
      (case sharp_toBuffer env lqip_pipeline originalBuffer of
        None \<Rightarrow> (Inl Decode_error, s)
      | Some lqipBuffer \<Rightarrow>
      (let lqipDataUri = ''data:image/webp;base64,'' @ base64 lqipBuffer in
       case uploadBufferToGridFS env thumbBuffer (filename @ ''-thumb.webp'')
              \<lparr>tag_category = category, tag_subcategory = subcategory,
               tag_subsubcategory = subsubcategory, tag_variant = ''thumbnail''\<rparr>
              ''image/webp'' s of
         (Inl e, s1) \<Rightarrow> (Inl e, s1)
       | (Inr thumbFile, s1) \<Rightarrow>
      (case uploadBufferToGridFS env fullBuffer (filename @ ''-full.webp'')
              \<lparr>tag_category = category, tag_subcategory = subcategory,
               tag_subsubcategory = subsubcategory, tag_variant = ''full''\<rparr>
              ''image/webp'' s1 of
         (Inl e, s2) \<Rightarrow> (Inl e, s2)
       | (Inr fullFile, s2) \<Rightarrow>
      (let metaDoc = \<lparr>doc_filename = filename,
             doc_alt = strip_image_ext filename,
             doc_category = category,
             doc_subcategory = subcategory,
             doc_subsubcategory = string_or_null subsubcategory,
             doc_thumbnailId = file_id thumbFile,
             doc_fullId = file_id fullFile,
             doc_lqip = lqipDataUri,
             doc_width = number_or_null (meta_width sharpMeta),
             doc_height = number_or_null (meta_height sharpMeta),
             doc_format = string_or_null (Some (meta_format sharpMeta)),
             doc_createdAt = now env s2\<rparr>
       in case insertOne env metaDoc s2 of
         (Inl e, s3) \<Rightarrow> (Inl e, s3)
       | (Inr insertedId, s3) \<Rightarrow> (Inr (Some insertedId), log (Success_line filename) s3)))))))))"

subsection \<open>walkAndUpload\<close>

text \<open>
  \<open>for (const x of xs) { await body(x) }\<close>: the bodies run in the order of the list,
  each on the state the one before left, and the first exception ends the loop.
\<close>

fun for_each ::
  "('a \<Rightarrow> state \<Rightarrow> (error + unit) \<times> state) \<Rightarrow> 'a list \<Rightarrow> state \<Rightarrow> (error + unit) \<times> state" where
  "for_each body [] s = (Inr (), s)"
| "for_each body (x # xs) s =
     (case body x s of
        (Inl e, s') \<Rightarrow> (Inl e, s')
      | (Inr u, s') \<Rightarrow> for_each body xs s')"

text \<open>
  \<open>fs.readdirSync(dir).filter(f => fs.statSync(path.join(dir, f)).isDirectory())\<close>: the
  names in the order the listing gives them; a \<open>statSync\<close> that throws ends the filter.
\<close>

fun filter_dirs :: "env \<Rightarrow> path \<Rightarrow> string list \<Rightarrow> string list option" where
  "filter_dirs env dir [] = Some []"
| "filter_dirs env dir (f # fs) =
     (case isDirectory env (path_join dir f) of
        None \<Rightarrow> None
      | Some d \<Rightarrow>
          (case filter_dirs env dir fs of
             None \<Rightarrow> None
           | Some ds \<Rightarrow> Some (if d then f # ds else ds)))"

definition list_dirs :: "env \<Rightarrow> path \<Rightarrow> string list option" where
  "list_dirs env dir =
     (case readdirSync env dir of
        None \<Rightarrow> None
      | Some names \<Rightarrow> filter_dirs env dir names)"

text \<open>
  The body of each of the three loops \<open>for (const f of files)\<close>: the progress line, then
  \<open>processFile\<close>, whose return value is dropped.
\<close>

definition process_entry ::
  "env \<Rightarrow> path \<Rightarrow> string \<Rightarrow> string option \<Rightarrow> string option \<Rightarrow> string \<Rightarrow> state
     \<Rightarrow> (error + unit) \<times> state" where
  "process_entry env dir category subcat subsub f s =
     (case processFile env (path_join dir f) category subcat subsub
             (log (Processing_line f category subcat subsub) s) of
        (Inl e, s') \<Rightarrow> (Inl e, s')
      | (Inr r, s') \<Rightarrow> (Inr (), s'))"

text \<open>
  The three places that list the image files of a directory and process them differ
  in the directory and in the labels only.
\<close>

definition walk_leaf ::
  "env \<Rightarrow> path \<Rightarrow> string \<Rightarrow> string option \<Rightarrow> string option \<Rightarrow> state \<Rightarrow> (error + unit) \<times> state" where
  "walk_leaf env dir category subcat subsub s =
     (case readdirSync env dir of
        None \<Rightarrow> (Inl Fs_error, s)
      | Some names \<Rightarrow>
          for_each (process_entry env dir category subcat subsub) (filter is_image_name names) s)"

text \<open>The body of \<open>for (const subcat of subcategories)\<close>.\<close>

definition walk_subcategory ::
  "env \<Rightarrow> path \<Rightarrow> string \<Rightarrow> string \<Rightarrow> state \<Rightarrow> (error + unit) \<times> state" where
  "walk_subcategory env categoryPath category subcat s =
     (let subcatPath = path_join categoryPath subcat in
      case list_dirs env subcatPath of
        None \<Rightarrow> (Inl Fs_error, s)
      | Some subsubdirs \<Rightarrow>
          if length subsubdirs > 0
          then for_each
                 (\<lambda>subsub. walk_leaf env (path_join subcatPath subsub) category
                    (Some subcat) (Some subsub))
                 subsubdirs s
          else walk_leaf env subcatPath category (Some subcat) None s)"

text \<open>The body of \<open>for (const category of categories)\<close>.\<close>

definition walk_category :: "env \<Rightarrow> string \<Rightarrow> state \<Rightarrow> (error + unit) \<times> state" where
  "walk_category env category s =
     (let categoryPath = path_join (BASE_IMAGES_DIR env) category in
      case list_dirs env categoryPath of
        None \<Rightarrow> (Inl Fs_error, s)
      | Some subcategories \<Rightarrow>
          if length subcategories = 0
          then walk_leaf env categoryPath category None None s
          else for_each (walk_subcategory env categoryPath category) subcategories s)"

text \<open>
  \<open>walkAndUpload\<close>: the connection, the three nested loops, the completion line and
  \<open>client.close()\<close>. The result \<open>Inl Connection_error\<close> stands for the branch that ends
  the process itself with \<open>process.exit(1)\<close>, after the connection failed and the client
  was closed; every other \<open>Inl\<close> is an exception with which the promise of
  \<open>walkAndUpload\<close> rejects, among them a \<open>client.close()\<close> that throws, in either place.
\<close>

definition walkAndUpload :: "env \<Rightarrow> state \<Rightarrow> (error + unit) \<times> state" where
  "walkAndUpload env s =
     (if \<not> connect_ok env
      then (let s0 = log Fatal_connection_line s in
            if close_ok env then (Inl Connection_error, s0) else (Inl Close_error, s0))
      else
        (let s0 = log Connected_line s in
         case list_dirs env (BASE_IMAGES_DIR env) of
           None \<Rightarrow> (Inl Fs_error, s0)
         | Some categories \<Rightarrow>
             (case for_each (walk_category env) categories s0 of
                (Inl e, s1) \<Rightarrow> (Inl e, s1)
              | (Inr u, s1) \<Rightarrow>
                  (let s2 = log Complete_line s1 in
                   if close_ok env then (Inr (), s2) else (Inl Close_error, s2)))))"

text \<open>
  The script as a whole: the exit status and the final state. The check of
  \<open>MONGO_URI\<close> throws before anything runs (an uncaught exception ends the process with
  a non-zero status); a failed connection exits with status 1 inside \<open>walkAndUpload\<close>;
  any other exception reaches the \<open>catch\<close> of the last lines, which prints it and exits
  with status 1. A run that returns leaves the status at 0.
\<close>

definition run_script :: "env \<Rightarrow> state \<Rightarrow> nat \<times> state" where
  "run_script env s =
     (if MONGO_URI env = [] then (1, s)
      else
        (case walkAndUpload env s of
           (Inl Connection_error, s') \<Rightarrow> (1, s')
         | (Inl e, s') \<Rightarrow> (1, log (Fatal_script_line e) s')
         | (Inr u, s') \<Rightarrow> (0, s')))"

subsection \<open>The category tree walker of the specification\<close>

text \<open>
  The specification describes the traversal as a component of its own, the Category
  Tree Walker, which yields tuples of a file path, a category, a subcategory and a
  sub-subcategory; the script has no such function, its loops find and process files
  in turn. The walker is written here after the specification's words, to be compared
  with \<open>walkAndUpload\<close> (lemma \<open>walkAndUpload_walker\<close> below). A walk is the list of the
  tuples found, and whether the traversal then stopped on a listing that threw.
\<close>

type_synonym entry = "path \<times> string \<times> string option \<times> string option"
type_synonym walk = "entry list \<times> bool"

definition walk_then :: "walk \<Rightarrow> walk \<Rightarrow> walk" where
  "walk_then a b = (if snd a then a else (fst a @ fst b, snd b))"

definition walk_concat :: "walk list \<Rightarrow> walk" where
  "walk_concat ws = foldr walk_then ws ([], False)"

definition leaf_entries ::
  "env \<Rightarrow> path \<Rightarrow> string \<Rightarrow> string option \<Rightarrow> string option \<Rightarrow> walk" where
  "leaf_entries env dir category subcat subsub =
     (case readdirSync env dir of
        None \<Rightarrow> ([], True)
      | Some names \<Rightarrow>
          (map (\<lambda>f. (path_join dir f, category, subcat, subsub)) (filter is_image_name names),
           False))"

definition subcategory_entries :: "env \<Rightarrow> path \<Rightarrow> string \<Rightarrow> string \<Rightarrow> walk" where
  "subcategory_entries env categoryPath category subcat =
     (let subcatPath = path_join categoryPath subcat in
      case list_dirs env subcatPath of
        None \<Rightarrow> ([], True)
      | Some subsubdirs \<Rightarrow>
          if subsubdirs = []
          then leaf_entries env subcatPath category (Some subcat) None
          else walk_concat
                 (map (\<lambda>subsub. leaf_entries env (path_join subcatPath subsub) category
                         (Some subcat) (Some subsub))
                    subsubdirs))"

definition category_entries :: "env \<Rightarrow> string \<Rightarrow> walk" where
  "category_entries env category =
     (let categoryPath = path_join (BASE_IMAGES_DIR env) category in
      case list_dirs env categoryPath of
        None \<Rightarrow> ([], True)
      | Some subcategories \<Rightarrow>
          if subcategories = []
          then leaf_entries env categoryPath category None None
          else walk_concat (map (subcategory_entries env categoryPath category) subcategories))"

definition walker :: "env \<Rightarrow> walk" where
  "walker env =
     (case list_dirs env (BASE_IMAGES_DIR env) of
        None \<Rightarrow> ([], True)
      | Some categories \<Rightarrow> walk_concat (map (category_entries env) categories))"

text \<open>
  The orchestrator on one tuple and on a walk: each file in turn, then the exception
  of the listing that ended the walk, if one did.
\<close>

definition process_tuple :: "env \<Rightarrow> entry \<Rightarrow> state \<Rightarrow> (error + unit) \<times> state" where
  "process_tuple env t s =
     (case t of (p, category, subcat, subsub) \<Rightarrow>
        (case processFile env p category subcat subsub
                (log (Processing_line (basename p) category subcat subsub) s) of
           (Inl e, s') \<Rightarrow> (Inl e, s')
         | (Inr r, s') \<Rightarrow> (Inr (), s')))"

definition ingest :: "env \<Rightarrow> walk \<Rightarrow> state \<Rightarrow> (error + unit) \<times> state" where
  "ingest env w s =
     (case for_each (process_tuple env) (fst w) s of
        (Inl e, s') \<Rightarrow> (Inl e, s')
      | (Inr u, s') \<Rightarrow> if snd w then (Inl Fs_error, s') else (Inr (), s'))"

text \<open>What identifies the file of a tuple in its metadata document.\<close>

definition entry_key :: "entry \<Rightarrow> string \<times> string \<times> string option \<times> string option" where
  "entry_key t =
     (case t of (p, category, subcat, subsub) \<Rightarrow>
        (basename p, category, subcat, string_or_null subsub))"

definition doc_key :: "meta_doc \<Rightarrow> string \<times> string \<times> string option \<times> string option" where
  "doc_key d = (doc_filename d, doc_category d, doc_subcategory d, doc_subsubcategory d)"

definition readable :: "env \<Rightarrow> entry \<Rightarrow> bool" where
  "readable env t = (readFileSync env (fst t) \<noteq> None)"

subsection \<open>The route GET /api/file/:fileId of server.js\<close>

text \<open>
  The response object, as far as the handler uses it. \<open>statusCode\<close> and the headers are
  staged until the head of the response is written, which the first \<open>write\<close> or \<open>end\<close>
  does; \<open>sent_status\<close> is the status line the client has received. Once the head is
  sent, \<open>setHeader\<close> throws.
\<close>

datatype body_part = Text string | Bytes buffer

record response =
  statusCode :: nat
  sent_status :: "nat option"
  res_headers :: "(string \<times> string) list"
  res_body :: "body_part list"
  res_ended :: bool

definition new_response :: response where
  "new_response =
     \<lparr>statusCode = 200, sent_status = None, res_headers = [], res_body = [], res_ended = False\<rparr>"

definition flush_head :: "response \<Rightarrow> response" where
  "flush_head r =
     (case sent_status r of None \<Rightarrow> r\<lparr>sent_status := Some (statusCode r)\<rparr> | Some c \<Rightarrow> r)"

definition setHeader :: "string \<Rightarrow> string \<Rightarrow> response \<Rightarrow> response option" where
  "setHeader k v r =
     (if sent_status r \<noteq> None then None
      else Some (r\<lparr>res_headers := (k, v) # filter (\<lambda>h. fst h \<noteq> k) (res_headers r)\<rparr>))"

definition write_part :: "body_part \<Rightarrow> response \<Rightarrow> response" where
  "write_part c r = (flush_head r)\<lparr>res_body := res_body r @ [c]\<rparr>"

definition end_response :: "response \<Rightarrow> response" where
  "end_response r = (flush_head r)\<lparr>res_ended := True\<rparr>"

text \<open>
  \<open>res.status(code).send(text)\<close> and \<open>res.sendStatus(code)\<close> of Express: both assign
  \<open>statusCode\<close>, set the content type through \<open>setHeader\<close> and send the text, which for
  \<open>sendStatus\<close> is the message of the status (written out for 500, the one code the
  handler passes). The second component says whether the call threw; the response is
  then left as it was when \<open>setHeader\<close> refused.
\<close>

definition send_text :: "nat \<Rightarrow> string \<Rightarrow> string \<Rightarrow> response \<Rightarrow> response \<times> bool" where
  "send_text code ctype body r =
     (let r1 = r\<lparr>statusCode := code\<rparr> in
      case setHeader ''Content-Type'' ctype r1 of
        None \<Rightarrow> (r1, True)
      | Some r2 \<Rightarrow> (end_response (write_part (Text body) r2), False))"

definition status_send :: "nat \<Rightarrow> string \<Rightarrow> response \<Rightarrow> response \<times> bool" where
  "status_send code body r = send_text code ''text/html; charset=utf-8'' body r"

definition sendStatus :: "nat \<Rightarrow> response \<Rightarrow> response \<times> bool" where
  "sendStatus code r =
     send_text code ''text/plain; charset=utf-8''
       (if code = 500 then ''Internal Server Error'' else []) r"

text \<open>
  What the server asks of the driver: \<open>new ObjectId(fileId)\<close> (\<open>None\<close> when it throws),
  \<open>findOne({ _id })\<close> on \<open>images.files\<close> (\<open>None\<close> when it rejects, \<open>Some None\<close> when no
  document matches) and the download stream, given by the chunks it emits and whether
  it then emits \<open>error\<close> instead of \<open>end\<close>.
\<close>

record server_env =
  new_ObjectId :: "string \<Rightarrow> object_id option"
  findOne :: "object_id \<Rightarrow> gridfs_file option option"
  openDownloadStream :: "object_id \<Rightarrow> buffer list \<times> bool"

datatype handler_end = Returned | Rejected | Listener_threw

text \<open>
  \<open>downloadStream.pipe(res)\<close> writes every chunk to the response and ends it when the
  stream ends; when the stream emits \<open>error\<close> the response is left open and the
  listener registered by the handler runs \<open>res.sendStatus(500)\<close>.
\<close>

definition get_file :: "server_env \<Rightarrow> string \<Rightarrow> response \<Rightarrow> response \<times> handler_end" where
  "get_file env fileId res =
     (case new_ObjectId env fileId of
        None \<Rightarrow> (fst (status_send 400 ''bad id'' res), Returned)
      | Some oid \<Rightarrow>
      (case findOne env oid of
        None \<Rightarrow> (res, Rejected)
      | Some None \<Rightarrow> (fst (status_send 404 ''file not found'' res), Returned)
      | Some (Some fileDoc) \<Rightarrow>
      (let contentType =
             (if file_contentType fileDoc = [] then ''image/webp'' else file_contentType fileDoc)
       in case setHeader ''Content-Type'' contentType res of
        None \<Rightarrow> (res, Rejected)
      | Some res1 \<Rightarrow>
      (case setHeader ''Cache-Control'' ''public, max-age=31536000, immutable'' res1 of
        None \<Rightarrow> (res1, Rejected)
      | Some res2 \<Rightarrow>
      (case openDownloadStream env oid of (chunks, faulted) \<Rightarrow>
         (let piped = foldl (\<lambda>r c. write_part (Bytes c) r) res2 chunks in
          if faulted
          then (case sendStatus 500 piped of
                  (r, threw) \<Rightarrow> (r, if threw then Listener_threw else Returned))
          else (end_response piped, Returned)))))))"

subsection \<open>Vocabulary of the statements\<close>

fun is_success_line :: "log_line \<Rightarrow> bool" where
  "is_success_line (Success_line f) = True"
| "is_success_line l = False"

fun is_skip_line :: "log_line \<Rightarrow> bool" where
  "is_skip_line (Skip_line f) = True"
| "is_skip_line l = False"

text \<open>The lines printed for one file: its progress line and how it ended.\<close>

fun is_file_line :: "log_line \<Rightarrow> bool" where
  "is_file_line (Processing_line f category subcat subsub) = True"
| "is_file_line (Skip_line f) = True"
| "is_file_line (Success_line f) = True"
| "is_file_line l = False"

text \<open>The exceptions \<open>processFile\<close> lets through: those of the steps after the read.\<close>

definition file_errors :: "error set" where
  "file_errors = {Decode_error, Upload_error, Upload_no_file, Index_write_error}"

text \<open>A buffer sharp accepts: \<open>metadata()\<close> and the three pipelines all succeed on it.\<close>

definition decodable :: "env \<Rightarrow> buffer \<Rightarrow> bool" where
  "decodable env buf =
     (sharp_metadata env buf \<noteq> None \<and>
      sharp_toBuffer env thumb_pipeline buf \<noteq> None \<and>
      sharp_toBuffer env full_pipeline buf \<noteq> None \<and>
      sharp_toBuffer env lqip_pipeline buf \<noteq> None)"

definition valid_file :: "env \<Rightarrow> entry \<Rightarrow> bool" where
  "valid_file env t =
     (case readFileSync env (fst t) of None \<Rightarrow> False | Some buf \<Rightarrow> decodable env buf)"

subsection \<open>Example trees\<close>

text \<open>
  A tree with a leaf category (\<open>Laces\<close>), a leaf subcategory whose listing is not in
  lexical order (\<open>Ribbons/Velvet\<close>) and a subcategory that has both a loose image and
  a sub-subdirectory (\<open>Ribbons/Satin\<close>). The first byte of a file is an eighth of its
  width in pixels; the empty file is not an image. The stand-in for sharp puts the
  requested quality in front of the source bytes.
\<close>

definition demo_listing :: "(path \<times> string list) list" where
  "demo_listing =
     [([''root''], [''Ribbons'', ''Laces'', ''readme.txt'']),
      ([''root'', ''Ribbons''], [''Velvet'', ''Satin'']),
      ([''root'', ''Ribbons'', ''Velvet''], [''b.jpg'', ''a.jpg'']),
      ([''root'', ''Ribbons'', ''Satin''], [''loose.png'', ''Cotton'']),
      ([''root'', ''Ribbons'', ''Satin'', ''Cotton''], [''c.webp'']),
      ([''root'', ''Laces''], [''x.JPG'', ''notes.txt''])]"

definition demo_files :: "(path \<times> buffer) list" where
  "demo_files =
     [([''root'', ''Ribbons'', ''Velvet'', ''b.jpg''], [250, 1]),
      ([''root'', ''Ribbons'', ''Velvet'', ''a.jpg''], [2, 2]),
      ([''root'', ''Ribbons'', ''Satin'', ''loose.png''], [8, 3]),
      ([''root'', ''Ribbons'', ''Satin'', ''Cotton'', ''c.webp''], [100, 4]),
      ([''root'', ''Laces'', ''x.JPG''], [20, 5])]"

definition demo_metadata :: "buffer \<Rightarrow> image_meta option" where
  "demo_metadata buf =
     (case buf of
        [] \<Rightarrow> None
      | b # bs \<Rightarrow> Some \<lparr>meta_width = 8 * b, meta_height = 4 * b, meta_format = ''jpeg''\<rparr>)"

definition demo_toBuffer :: "pipeline \<Rightarrow> buffer \<Rightarrow> buffer option" where
  "demo_toBuffer p buf = (if buf = [] then None else Some (webp_quality p # buf))"

definition demo_env :: env where
  "demo_env =
     \<lparr>MONGO_URI = ''mongodb://localhost'', BASE_IMAGES_DIR = [''root''],
      connect_ok = True, close_ok = True,
      readdirSync = map_of demo_listing,
      isDirectory = (\<lambda>p. Some (map_of demo_listing p \<noteq> None)),
      readFileSync = map_of demo_files,
      sharp_metadata = demo_metadata,
      sharp_toBuffer = demo_toBuffer,
      upload_outcome_of = (\<lambda>s name t. Finished_with_file),
      insert_ok = (\<lambda>s d. True),
      now = (\<lambda>s. length (calls s))\<rparr>"

definition init_state :: state where
  "init_state = \<lparr>files = [], imagesMeta = [], next_id = 0, console = [], calls = []\<rparr>"

text \<open>The tuples the walker yields on this tree.\<close>

definition demo_entries :: "entry list" where
  "demo_entries =
     [([''root'', ''Ribbons'', ''Velvet'', ''b.jpg''], ''Ribbons'', Some ''Velvet'', None),
      ([''root'', ''Ribbons'', ''Velvet'', ''a.jpg''], ''Ribbons'', Some ''Velvet'', None),
      ([''root'', ''Ribbons'', ''Satin'', ''Cotton'', ''c.webp''], ''Ribbons'', Some ''Satin'',
       Some ''Cotton''),
      ([''root'', ''Laces'', ''x.JPG''], ''Laces'', None, None)]"

text \<open>The same tree with \<open>a.jpg\<close> unreadable, and with \<open>a.jpg\<close> readable but empty.\<close>

definition unreadable_env :: env where
  "unreadable_env =
     demo_env\<lparr>readFileSync :=
       (\<lambda>p. if p = [''root'', ''Ribbons'', ''Velvet'', ''a.jpg''] then None else map_of demo_files p)\<rparr>"

definition corrupt_env :: env where
  "corrupt_env =
     demo_env\<lparr>readFileSync :=
       (\<lambda>p. if p = [''root'', ''Ribbons'', ''Velvet'', ''a.jpg''] then Some []
            else map_of demo_files p)\<rparr>"



text \<open>
  The same tree with \<open>a.jpg\<close> one pixel wide and a thousand high: sharp reads its
  metadata and encodes the thumbnail and the full variant at that size, but the
  placeholder pipeline, which asks for width 20 and so for height 20000, fails.
\<close>

definition tall_env :: env where
  "tall_env =
     demo_env\<lparr>sharp_metadata :=
         (\<lambda>buf. if buf = [2, 2]
            then Some \<lparr>meta_width = 1, meta_height = 1000, meta_format = ''png''\<rparr>
            else demo_metadata buf),
       sharp_toBuffer :=
         (\<lambda>p buf. if buf = [2, 2] \<and> resize_width p = 20 then None else demo_toBuffer p buf)\<rparr>"

text \<open>A tree of one leaf category with one image, readable or not.\<close>

definition single_env :: "bool \<Rightarrow> env" where
  "single_env ok =
     demo_env\<lparr>readdirSync := map_of [([''root''], [''Laces'']), ([''root'', ''Laces''], [''x.JPG''])],
       isDirectory := (\<lambda>p. Some (p = [''root''] \<or> p = [''root'', ''Laces''])),
       readFileSync := (\<lambda>p. if ok then map_of demo_files p else None)\<rparr>"

text \<open>
  A bucket with one stored file, whose id is written \<open>65f1a2b3c4d5e6f708192a3b\<close> in a
  request and 7 here; its download stream emits the given chunks and then \<open>error\<close> or
  \<open>end\<close>.
\<close>

definition demo_file :: gridfs_file where
  "demo_file =
     \<lparr>file_id = 7, file_filename = ''x.JPG-full.webp'', file_contentType = ''image/webp'',
      file_metadata = \<lparr>tag_category = ''Laces'', tag_subcategory = None,
        tag_subsubcategory = None, tag_variant = ''full''\<rparr>,
      file_data = [82, 20, 5]\<rparr>"

definition demo_server :: "buffer list \<Rightarrow> bool \<Rightarrow> server_env" where
  "demo_server chunks faulted =
     \<lparr>new_ObjectId = (\<lambda>x. if x = ''65f1a2b3c4d5e6f708192a3b'' then Some 7 else None),
      findOne = (\<lambda>i. Some (if i = 7 then Some demo_file else None)),
      openDownloadStream = (\<lambda>i. (chunks, faulted))\<rparr>"

section \<open>Properties\<close>

subsection \<open>The steps of processFile\<close>

lemma upload_cases:
  assumes "uploadBufferToGridFS env b n t c s = (r, s')"
  shows "imagesMeta s' = imagesMeta s \<and> console s' = console s \<and>
    ((\<exists>f. r = Inr f \<and> files s' = files s @ [f] \<and> file_id f = next_id s \<and>
          file_metadata f = t \<and> file_data f = b \<and> file_filename f = n \<and> file_contentType f = c \<and>
          next_id s' = Suc (next_id s) \<and>
          calls s' = calls s @ [Upload_call n Finished_with_file])
     \<or> (\<exists>e oc. r = Inl e \<and> (e = Upload_error \<or> e = Upload_no_file) \<and> oc \<noteq> Finished_with_file \<and>
          calls s' = calls s @ [Upload_call n oc]))"
  using assms
  by (auto simp: uploadBufferToGridFS_def Let_def split: upload_outcome.splits)

lemma insert_cases:
  assumes "insertOne env d s = (r, s')"
  shows "files s' = files s \<and> console s' = console s \<and>
    ((r = Inr (next_id s) \<and> imagesMeta s' = imagesMeta s @ [(next_id s, d)] \<and>
        calls s' = calls s @ [Insert_call d True])
     \<or> (r = Inl Index_write_error \<and> imagesMeta s' = imagesMeta s \<and>
        calls s' = calls s @ [Insert_call d False]))"
  using assms
  by (auto simp: insertOne_def Let_def split: if_splits)


lemma processFile_skip:
  "readFileSync env p = None \<Longrightarrow>
   processFile env p cat sub ssub s = (Inr None, log (Skip_line (basename p)) s)"
  by (simp add: processFile_def)

lemma processFile_decoded:
  assumes "processFile env p cat sub ssub s = (r, s')"
    and "r \<noteq> Inr None" and "(r, s') \<noteq> (Inl Decode_error, s)"
  shows "\<exists>buf m tb fb lb.
     readFileSync env p = Some buf \<and> sharp_metadata env buf = Some m \<and>
     sharp_toBuffer env thumb_pipeline buf = Some tb \<and>
     sharp_toBuffer env full_pipeline buf = Some fb \<and>
     sharp_toBuffer env lqip_pipeline buf = Some lb"
  using assms
  by (auto simp: processFile_def Let_def split: option.splits)

lemma processFile_done:
  assumes pf: "processFile env p cat sub ssub s = (Inr (Some i), s')"
  shows "\<exists>buf m tb fb lb tf ff d.
     readFileSync env p = Some buf \<and> sharp_metadata env buf = Some m \<and>
     sharp_toBuffer env thumb_pipeline buf = Some tb \<and>
     sharp_toBuffer env full_pipeline buf = Some fb \<and>
     sharp_toBuffer env lqip_pipeline buf = Some lb \<and>
     files s' = files s @ [tf, ff] \<and>
     file_data tf = tb \<and> file_data ff = fb \<and>
     file_filename tf = basename p @ ''-thumb.webp'' \<and>
     file_filename ff = basename p @ ''-full.webp'' \<and>
     file_metadata tf = \<lparr>tag_category = cat, tag_subcategory = sub,
        tag_subsubcategory = ssub, tag_variant = ''thumbnail''\<rparr> \<and>
     file_metadata ff = \<lparr>tag_category = cat, tag_subcategory = sub,
        tag_subsubcategory = ssub, tag_variant = ''full''\<rparr> \<and>
     file_contentType tf = ''image/webp'' \<and> file_contentType ff = ''image/webp'' \<and>
     file_id tf = next_id s \<and> file_id ff = Suc (next_id s) \<and>
     imagesMeta s' = imagesMeta s @ [(i, d)] \<and>
     doc_thumbnailId d = file_id tf \<and> doc_fullId d = file_id ff \<and>
     doc_filename d = basename p \<and> doc_category d = cat \<and> doc_subcategory d = sub \<and>
     doc_subsubcategory d = string_or_null ssub \<and>
     doc_lqip d = ''data:image/webp;base64,'' @ base64 lb \<and>
     console s' = console s @ [Success_line (basename p)] \<and>
     calls s' = calls s @ [Upload_call (basename p @ ''-thumb.webp'') Finished_with_file,
        Upload_call (basename p @ ''-full.webp'') Finished_with_file, Insert_call d True]"
proof -
  from processFile_decoded [OF pf] obtain buf m tb fb lb where
    dec: "readFileSync env p = Some buf" "sharp_metadata env buf = Some m"
      "sharp_toBuffer env thumb_pipeline buf = Some tb"
      "sharp_toBuffer env full_pipeline buf = Some fb"
      "sharp_toBuffer env lqip_pipeline buf = Some lb"
    by auto
  obtain r1 s1 where u1: "uploadBufferToGridFS env tb (basename p @ ''-thumb.webp'')
      \<lparr>tag_category = cat, tag_subcategory = sub,
        tag_subsubcategory = ssub, tag_variant = ''thumbnail''\<rparr> ''image/webp'' s = (r1, s1)"
    by force
  from pf dec u1 obtain tf where r1: "r1 = Inr tf"
    by (cases r1) (simp_all add: processFile_def Let_def)
  obtain r2 s2 where u2: "uploadBufferToGridFS env fb (basename p @ ''-full.webp'')
      \<lparr>tag_category = cat, tag_subcategory = sub,
        tag_subsubcategory = ssub, tag_variant = ''full''\<rparr> ''image/webp'' s1 = (r2, s2)"
    by force
  from pf dec u1 r1 u2 obtain ff where r2: "r2 = Inr ff"
    by (cases r2) (simp_all add: processFile_def Let_def)
  define d where "d = \<lparr>doc_filename = basename p,
             doc_alt = strip_image_ext (basename p),
             doc_category = cat,
             doc_subcategory = sub,
             doc_subsubcategory = string_or_null ssub,
             doc_thumbnailId = file_id tf,
             doc_fullId = file_id ff,
             doc_lqip = ''data:image/webp;base64,'' @ base64 lb,
             doc_width = number_or_null (meta_width m),
             doc_height = number_or_null (meta_height m),
             doc_format = string_or_null (Some (meta_format m)),
             doc_createdAt = now env s2\<rparr>"
  obtain r3 s3 where ins: "insertOne env d s2 = (r3, s3)"
    by force
  from pf dec u1 r1 u2 r2 ins have r3: "r3 = Inr i" and s': "s' = log (Success_line (basename p)) s3"
    by (cases r3; simp add: processFile_def Let_def d_def)+
  note a = upload_cases [OF u1] and b = upload_cases [OF u2] and c = insert_cases [OF ins]
  show ?thesis
    apply (rule exI [where x = buf], rule exI [where x = m], rule exI [where x = tb])
    apply (rule exI [where x = fb], rule exI [where x = lb], rule exI [where x = tf])
    apply (rule exI [where x = ff], rule exI [where x = d])
    using dec a b c r1 r2 r3 s'
    apply (simp add: log_def d_def)
    done
qed


lemma processFile_null:
  assumes "processFile env p cat sub ssub s = (Inr None, s')"
  shows "readFileSync env p = None \<and> s' = log (Skip_line (basename p)) s"
  using assms
  by (auto simp: processFile_def Let_def split: option.splits prod.splits sum.splits)

lemma processFile_failed:
  assumes pf: "processFile env p cat sub ssub s = (Inl e, s')"
  shows "readFileSync env p \<noteq> None \<and> imagesMeta s' = imagesMeta s \<and> console s' = console s \<and>
    ((e = Decode_error \<and> s' = s)
     \<or> ((e = Upload_error \<or> e = Upload_no_file) \<and>
          (\<exists>oc. oc \<noteq> Finished_with_file \<and>
             calls s' = calls s @ [Upload_call (basename p @ ''-thumb.webp'') oc]))
     \<or> ((e = Upload_error \<or> e = Upload_no_file) \<and>
          (\<exists>oc. oc \<noteq> Finished_with_file \<and>
             calls s' = calls s @ [Upload_call (basename p @ ''-thumb.webp'') Finished_with_file,
               Upload_call (basename p @ ''-full.webp'') oc]))
     \<or> (e = Index_write_error \<and>
          (\<exists>d tf ff. files s' = files s @ [tf, ff] \<and>
             tag_variant (file_metadata tf) = ''thumbnail'' \<and>
             tag_variant (file_metadata ff) = ''full'' \<and>
             doc_thumbnailId d = file_id tf \<and> doc_fullId d = file_id ff \<and>
             calls s' = calls s @ [Upload_call (basename p @ ''-thumb.webp'') Finished_with_file,
               Upload_call (basename p @ ''-full.webp'') Finished_with_file,
               Insert_call d False])))"
proof (cases "e = Decode_error \<and> s' = s")
  case True
  with pf show ?thesis
    by (auto simp: processFile_def Let_def split: option.splits)
next
  case False
  from processFile_decoded [OF pf] False obtain buf m tb fb lb where
    dec: "readFileSync env p = Some buf" "sharp_metadata env buf = Some m"
      "sharp_toBuffer env thumb_pipeline buf = Some tb"
      "sharp_toBuffer env full_pipeline buf = Some fb"
      "sharp_toBuffer env lqip_pipeline buf = Some lb"
    by auto
  obtain r1 s1 where u1: "uploadBufferToGridFS env tb (basename p @ ''-thumb.webp'')
      \<lparr>tag_category = cat, tag_subcategory = sub,
        tag_subsubcategory = ssub, tag_variant = ''thumbnail''\<rparr> ''image/webp'' s = (r1, s1)"
    by force
  note a = upload_cases [OF u1]
  show ?thesis
  proof (cases r1)
    case (Inl e1)
    with pf dec u1 have "e = e1" "s' = s1"
      by (simp_all add: processFile_def Let_def)
    with a Inl dec show ?thesis by auto
  next
    case r1: (Inr tf)
    obtain r2 s2 where u2: "uploadBufferToGridFS env fb (basename p @ ''-full.webp'')
        \<lparr>tag_category = cat, tag_subcategory = sub,
          tag_subsubcategory = ssub, tag_variant = ''full''\<rparr> ''image/webp'' s1 = (r2, s2)"
      by force
    note b = upload_cases [OF u2]
    show ?thesis
    proof (cases r2)
      case (Inl e2)
      with pf dec u1 r1 u2 have "e = e2" "s' = s2"
        by (simp_all add: processFile_def Let_def)
      with a b r1 Inl dec show ?thesis by auto
    next
      case r2: (Inr ff)
      define d where "d = \<lparr>doc_filename = basename p,
             doc_alt = strip_image_ext (basename p),
             doc_category = cat,
             doc_subcategory = sub,
             doc_subsubcategory = string_or_null ssub,
             doc_thumbnailId = file_id tf,
             doc_fullId = file_id ff,
             doc_lqip = ''data:image/webp;base64,'' @ base64 lb,
             doc_width = number_or_null (meta_width m),
             doc_height = number_or_null (meta_height m),
             doc_format = string_or_null (Some (meta_format m)),
             doc_createdAt = now env s2\<rparr>"
      obtain r3 s3 where ins: "insertOne env d s2 = (r3, s3)"
        by force
      from pf dec u1 r1 u2 r2 ins have r3: "r3 = Inl e" and s': "s' = s3"
        by (cases r3; simp add: processFile_def Let_def d_def)+
      note c = insert_cases [OF ins]
      have "e = Index_write_error \<and> files s' = files s @ [tf, ff] \<and>
             tag_variant (file_metadata tf) = ''thumbnail'' \<and>
             tag_variant (file_metadata ff) = ''full'' \<and>
             doc_thumbnailId d = file_id tf \<and> doc_fullId d = file_id ff \<and>
             calls s' = calls s @ [Upload_call (basename p @ ''-thumb.webp'') Finished_with_file,
               Upload_call (basename p @ ''-full.webp'') Finished_with_file,
               Insert_call d False]"
        using a b c r1 r2 r3 s' by (simp add: d_def)
      moreover have "imagesMeta s' = imagesMeta s \<and> console s' = console s"
        using a b c r1 r2 r3 s' by simp
      ultimately show ?thesis using dec by blast
    qed
  qed
qed






text \<open>
  With the bytes read and the placeholder encoded, a record sent to the index carries
  that placeholder; with every stage succeeding the file is ingested.
\<close>

lemma processFile_ingests:
  assumes rd: "readFileSync env p = Some buf"
    and md: "sharp_metadata env buf = Some m"
    and tb: "sharp_toBuffer env thumb_pipeline buf = Some tb"
    and fb: "sharp_toBuffer env full_pipeline buf = Some fb"
    and lb: "sharp_toBuffer env lqip_pipeline buf = Some lb"
    and up: "\<forall>s n tg. upload_outcome_of env s n tg = Finished_with_file"
    and ins: "\<forall>s d. insert_ok env s d"
  shows "\<exists>i. fst (processFile env p cat sub ssub s) = Inr (Some i)"
  using assms
  by (simp add: processFile_def uploadBufferToGridFS_def insertOne_def Let_def)

lemma processFile_placeholder:
  assumes rd: "readFileSync env p = Some buf"
    and lb: "sharp_toBuffer env lqip_pipeline buf = Some lb"
    and pf: "processFile env p cat sub ssub s = (r, s')"
  shows "r \<noteq> Inr None \<and>
     (\<exists>cs. calls s' = calls s @ cs \<and>
        (\<forall>d ok. Insert_call d ok \<in> set cs \<longrightarrow>
           doc_lqip d = ''data:image/webp;base64,'' @ base64 lb))"
proof -
  obtain m tb fb where "sharp_metadata env buf = None \<or>
      sharp_toBuffer env thumb_pipeline buf = None \<or>
      sharp_toBuffer env full_pipeline buf = None \<or>
      sharp_metadata env buf = Some m \<and> sharp_toBuffer env thumb_pipeline buf = Some tb \<and>
        sharp_toBuffer env full_pipeline buf = Some fb"
    by (cases "sharp_metadata env buf"; cases "sharp_toBuffer env thumb_pipeline buf";
        cases "sharp_toBuffer env full_pipeline buf") auto
  then consider (undecoded) "r = Inl Decode_error" "s' = s"
    | (decoded) "sharp_metadata env buf = Some m" "sharp_toBuffer env thumb_pipeline buf = Some tb"
        "sharp_toBuffer env full_pipeline buf = Some fb"
    using rd pf by (auto simp: processFile_def Let_def split: option.splits)
  then show ?thesis
  proof cases
    case undecoded
    then show ?thesis by simp
  next
    case decoded
    with rd lb pf show ?thesis
      by (auto simp: processFile_def uploadBufferToGridFS_def insertOne_def Let_def log_def
          split: upload_outcome.splits if_splits)
  qed
qed

subsection \<open>The loops of walkAndUpload against the walker\<close>

lemma for_each_append:
  "for_each body (xs @ ys) s =
     (case for_each body xs s of
        (Inl e, s') \<Rightarrow> (Inl e, s')
      | (Inr u, s') \<Rightarrow> for_each body ys s')"
  by (induction xs arbitrary: s) (auto split: prod.splits sum.splits)

lemma for_each_map: "for_each body (map g xs) s = for_each (\<lambda>x. body (g x)) xs s"
  by (induction xs arbitrary: s) (auto split: prod.splits sum.splits)

lemma ingest_nil: "ingest env ([], False) s = (Inr (), s)"
  by (simp add: ingest_def)

lemma ingest_then:
  "ingest env (walk_then a b) s =
     (case ingest env a s of
        (Inl e, s') \<Rightarrow> (Inl e, s')
      | (Inr u, s') \<Rightarrow> ingest env b s')"
  by (auto simp: ingest_def walk_then_def for_each_append split: prod.splits sum.splits)

lemma for_each_ingest_at:
  "for_each (\<lambda>x. ingest env (w x)) xs s = ingest env (walk_concat (map w xs)) s"
proof (induction xs arbitrary: s)
  case Nil
  show ?case by (simp add: walk_concat_def ingest_nil)
next
  case (Cons x xs)
  have "walk_concat (map w (x # xs)) = walk_then (w x) (walk_concat (map w xs))"
    by (simp add: walk_concat_def)
  with Cons show ?case
    by (simp add: ingest_then split: prod.splits sum.splits)
qed

lemma for_each_ingest:
  "for_each (\<lambda>x. ingest env (w x)) xs = ingest env (walk_concat (map w xs))"
  by (intro ext) (rule for_each_ingest_at)

lemma basename_join: "basename (path_join dir f) = f"
  by (simp add: basename_def path_join_def)

lemma process_entry_tuple:
  "process_entry env dir cat sub ssub = (\<lambda>f. process_tuple env (path_join dir f, cat, sub, ssub))"
  by (intro ext) (simp add: process_entry_def process_tuple_def basename_join)

lemma ingest_fault: "ingest env ([], True) = (\<lambda>s. (Inl Fs_error, s))"
  by (intro ext) (simp add: ingest_def)

lemma walk_leaf_ingest:
  "walk_leaf env dir cat sub ssub = ingest env (leaf_entries env dir cat sub ssub)"
proof
  fix s
  show "walk_leaf env dir cat sub ssub s = ingest env (leaf_entries env dir cat sub ssub) s"
  proof (cases "readdirSync env dir")
    case None
    then show ?thesis
      by (simp add: walk_leaf_def leaf_entries_def ingest_fault)
  next
    case (Some names)
    then show ?thesis
      by (simp add: walk_leaf_def leaf_entries_def ingest_def for_each_map process_entry_tuple
          split: prod.splits sum.splits)
  qed
qed

lemma walk_subcategory_ingest:
  "walk_subcategory env cp cat subcat = ingest env (subcategory_entries env cp cat subcat)"
proof
  fix s
  show "walk_subcategory env cp cat subcat s = ingest env (subcategory_entries env cp cat subcat) s"
  proof (cases "list_dirs env (path_join cp subcat)")
    case None
    then show ?thesis
      by (simp add: walk_subcategory_def subcategory_entries_def ingest_fault)
  next
    case (Some dirs)
    then show ?thesis
      by (simp add: walk_subcategory_def subcategory_entries_def Let_def walk_leaf_ingest
          for_each_ingest)
  qed
qed

lemma walk_subcategory_fun:
  "walk_subcategory env cp cat = (\<lambda>subcat. ingest env (subcategory_entries env cp cat subcat))"
  by (intro ext) (simp add: walk_subcategory_ingest)

lemma walk_category_ingest:
  "walk_category env cat = ingest env (category_entries env cat)"
proof
  fix s
  show "walk_category env cat s = ingest env (category_entries env cat) s"
  proof (cases "list_dirs env (path_join (BASE_IMAGES_DIR env) cat)")
    case None
    then show ?thesis
      by (simp add: walk_category_def category_entries_def ingest_fault)
  next
    case (Some dirs)
    then show ?thesis
      by (simp add: walk_category_def category_entries_def Let_def walk_leaf_ingest
          walk_subcategory_fun for_each_ingest)
  qed
qed

lemma walk_category_fun:
  "walk_category env = (\<lambda>cat. ingest env (category_entries env cat))"
  by (intro ext) (simp add: walk_category_ingest)

lemma walkAndUpload_walker:
  "walkAndUpload env s =
     (if \<not> connect_ok env
      then (if close_ok env then (Inl Connection_error, log Fatal_connection_line s)
            else (Inl Close_error, log Fatal_connection_line s))
      else
        (case ingest env (walker env) (log Connected_line s) of
           (Inl e, s1) \<Rightarrow> (Inl e, s1)
         | (Inr u, s1) \<Rightarrow>
             (if close_ok env then (Inr (), log Complete_line s1)
              else (Inl Close_error, log Complete_line s1))))"
proof (cases "list_dirs env (BASE_IMAGES_DIR env)")
  case None
  then show ?thesis
    by (simp add: walkAndUpload_def walker_def ingest_fault)
next
  case (Some dirs)
  have "for_each (walk_category env) dirs = ingest env (walker env)"
    using Some by (simp add: walk_category_fun for_each_ingest walker_def)
  with Some show ?thesis
    by (simp add: walkAndUpload_def Let_def split: prod.splits sum.splits)
qed

subsection \<open>A run, file by file\<close>

lemma process_tuple_cases:
  assumes "process_tuple env t s = (r, s')"
  shows "(\<not> readable env t \<and> r = Inr () \<and> imagesMeta s' = imagesMeta s \<and>
          files s' = files s \<and> calls s' = calls s \<and>
          (\<exists>l. console s' = console s @ [l, Skip_line (basename (fst t))] \<and>
               \<not> is_success_line l \<and> \<not> is_skip_line l))
       \<or> (readable env t \<and> r = Inr () \<and>
          (\<exists>i d. imagesMeta s' = imagesMeta s @ [(i, d)] \<and> doc_key d = entry_key t) \<and>
          (\<exists>l. console s' = console s @ [l, Success_line (basename (fst t))] \<and>
               \<not> is_success_line l \<and> \<not> is_skip_line l))
       \<or> (readable env t \<and> (\<exists>e. r = Inl e \<and> e \<in> file_errors) \<and>
          imagesMeta s' = imagesMeta s \<and>
          (\<exists>l. console s' = console s @ [l] \<and> \<not> is_success_line l \<and> \<not> is_skip_line l))"
proof -
  obtain p cat sub ssub where t: "t = (p, cat, sub, ssub)"
    by (cases t) auto
  define s0 where "s0 = log (Processing_line (basename p) cat sub ssub) s"
  obtain r0 s1 where pf: "processFile env p cat sub ssub s0 = (r0, s1)"
    by force
  have s0: "imagesMeta s0 = imagesMeta s" "files s0 = files s" "calls s0 = calls s"
    "console s0 = console s @ [Processing_line (basename p) cat sub ssub]"
    by (simp_all add: s0_def log_def)
  show ?thesis
  proof (cases r0)
    case (Inl e)
    with assms t pf have "r = Inl e" "s' = s1"
      by (simp_all add: process_tuple_def s0_def)
    with processFile_failed [OF pf [unfolded Inl]] s0 t show ?thesis
      by (auto simp: readable_def file_errors_def)
  next
    case (Inr v)
    with assms t pf have r: "r = Inr ()" "s' = s1"
      by (simp_all add: process_tuple_def s0_def)
    show ?thesis
    proof (cases v)
      case None
      with processFile_null [OF pf [unfolded Inr None]] r s0 t show ?thesis
        by (auto simp: readable_def log_def)
    next
      case (Some i)
      from processFile_done [OF pf [unfolded Inr Some]] obtain d where
        "readFileSync env p \<noteq> None" "imagesMeta s1 = imagesMeta s0 @ [(i, d)]"
        "doc_filename d = basename p" "doc_category d = cat" "doc_subcategory d = sub"
        "doc_subsubcategory d = string_or_null ssub"
        "console s1 = console s0 @ [Success_line (basename p)]"
        by auto
      with r s0 t show ?thesis
        by (auto simp: readable_def doc_key_def entry_key_def)
    qed
  qed
qed


lemma ingest_progress:
  "for_each (process_tuple env) es s = (r, s') \<Longrightarrow>
   \<exists>n ds ls. n \<le> length es \<and> imagesMeta s' = imagesMeta s @ ds \<and>
     console s' = console s @ ls \<and>
     map (\<lambda>x. doc_key (snd x)) ds = map entry_key (filter (readable env) (take n es)) \<and>
     length (filter is_success_line ls) = length ds \<and>
     length (filter is_skip_line ls) = length (filter (\<lambda>t. \<not> readable env t) (take n es)) \<and>
     (r = Inr () \<longrightarrow> n = length es) \<and>
     (\<forall>e. r = Inl e \<longrightarrow> n < length es \<and> readable env (es ! n) \<and> e \<in> file_errors)"
proof (induction es arbitrary: s)
  case Nil
  then show ?case by auto
next
  case (Cons t es)
  obtain r1 s1 where step: "process_tuple env t s = (r1, s1)"
    by force
  from process_tuple_cases [OF step] consider
    (skipped) l where "\<not> readable env t" "r1 = Inr ()" "imagesMeta s1 = imagesMeta s"
      "console s1 = console s @ [l, Skip_line (basename (fst t))]"
      "\<not> is_success_line l" "\<not> is_skip_line l"
  | (ingested) i d l where "readable env t" "r1 = Inr ()"
      "imagesMeta s1 = imagesMeta s @ [(i, d)]" "doc_key d = entry_key t"
      "console s1 = console s @ [l, Success_line (basename (fst t))]"
      "\<not> is_success_line l" "\<not> is_skip_line l"
  | (failed) e l where "readable env t" "r1 = Inl e" "e \<in> file_errors"
      "imagesMeta s1 = imagesMeta s" "console s1 = console s @ [l]"
      "\<not> is_success_line l" "\<not> is_skip_line l"
    by blast
  then show ?case
  proof cases
    case skipped
    with Cons.prems step have "for_each (process_tuple env) es s1 = (r, s')"
      by simp
    from Cons.IH [OF this] obtain n ds ls where
      ih: "n \<le> length es" "imagesMeta s' = imagesMeta s1 @ ds" "console s' = console s1 @ ls"
        "map (\<lambda>x. doc_key (snd x)) ds = map entry_key (filter (readable env) (take n es))"
        "length (filter is_success_line ls) = length ds"
        "length (filter is_skip_line ls) = length (filter (\<lambda>t. \<not> readable env t) (take n es))"
        "r = Inr () \<longrightarrow> n = length es"
        "\<forall>e. r = Inl e \<longrightarrow> n < length es \<and> readable env (es ! n) \<and> e \<in> file_errors"
      by blast
    show ?thesis
      apply (rule exI [where x = "Suc n"], rule exI [where x = ds])
      apply (rule exI [where x = "[l, Skip_line (basename (fst t))] @ ls"])
      using ih skipped by simp
  next
    case ingested
    with Cons.prems step have "for_each (process_tuple env) es s1 = (r, s')"
      by simp
    from Cons.IH [OF this] obtain n ds ls where
      ih: "n \<le> length es" "imagesMeta s' = imagesMeta s1 @ ds" "console s' = console s1 @ ls"
        "map (\<lambda>x. doc_key (snd x)) ds = map entry_key (filter (readable env) (take n es))"
        "length (filter is_success_line ls) = length ds"
        "length (filter is_skip_line ls) = length (filter (\<lambda>t. \<not> readable env t) (take n es))"
        "r = Inr () \<longrightarrow> n = length es"
        "\<forall>e. r = Inl e \<longrightarrow> n < length es \<and> readable env (es ! n) \<and> e \<in> file_errors"
      by blast
    show ?thesis
      apply (rule exI [where x = "Suc n"], rule exI [where x = "(i, d) # ds"])
      apply (rule exI [where x = "[l, Success_line (basename (fst t))] @ ls"])
      using ih ingested by simp
  next
    case failed
    with Cons.prems step have "r = Inl e" "s' = s1"
      by simp_all
    show ?thesis
      apply (rule exI [where x = 0], rule exI [where x = "[]"], rule exI [where x = "[l]"])
      using failed \<open>r = Inl e\<close> \<open>s' = s1\<close> by simp
  qed
qed

subsection \<open>What a file adds to the bucket\<close>






lemma base64_length: "length (base64 bs) = 4 * ((length bs + 2) div 3)"
proof (induction bs rule: base64.induct)
  case (1 a b c rest)
  have "(length (a # b # c # rest) + 2) div 3 = Suc ((length rest + 2) div 3)"
    by simp
  with 1 show ?case by simp
qed simp_all

subsection \<open>A run as a whole\<close>

lemma for_each_error:
  assumes "for_each (process_tuple env) es s = (Inl e, s')"
  shows "e \<in> file_errors"
  using ingest_progress [OF assms] by auto

lemma run_script_eq:
  assumes uri: "MONGO_URI env \<noteq> []" and conn: "connect_ok env"
    and w: "walker env = (es, flt)"
    and run: "for_each (process_tuple env) es (log Connected_line s) = (r, s1)"
  shows "run_script env s =
     (case r of
        Inl e \<Rightarrow> (1, log (Fatal_script_line e) s1)
      | Inr u \<Rightarrow>
          if flt then (1, log (Fatal_script_line Fs_error) s1)
          else if close_ok env then (0, log Complete_line s1)
          else (1, log (Fatal_script_line Close_error) (log Complete_line s1)))"
proof (cases r)
  case (Inl e)
  with run have "e \<in> file_errors"
    using for_each_error by blast
  then have "e \<noteq> Connection_error"
    by (auto simp: file_errors_def)
  with Inl uri conn w run show ?thesis
    by (cases e) (simp_all add: run_script_def walkAndUpload_walker ingest_def)
next
  case (Inr u)
  with uri conn w run show ?thesis
    by (simp add: run_script_def walkAndUpload_walker ingest_def)
qed

lemma process_tuple_valid:
  assumes "valid_file env t"
    and "\<forall>s n tg. upload_outcome_of env s n tg = Finished_with_file"
    and "\<forall>s d. insert_ok env s d"
  shows "fst (process_tuple env t s) = Inr ()"
proof -
  obtain p cat sub ssub where t: "t = (p, cat, sub, ssub)"
    by (cases t) auto
  from assms(1) t obtain buf m tb fb lb where
    "readFileSync env p = Some buf" "sharp_metadata env buf = Some m"
      "sharp_toBuffer env thumb_pipeline buf = Some tb"
      "sharp_toBuffer env full_pipeline buf = Some fb"
      "sharp_toBuffer env lqip_pipeline buf = Some lb"
    by (auto simp: valid_file_def decodable_def split: option.splits)
  with assms(2,3) t show ?thesis
    by (simp add: process_tuple_def processFile_def uploadBufferToGridFS_def insertOne_def Let_def)
qed

lemma process_tuple_unreadable:
  assumes "\<not> readable env t"
  shows "fst (process_tuple env t s) = Inr ()"
  using assms
  by (cases t) (simp add: readable_def process_tuple_def processFile_def Let_def)

lemma for_each_all_valid:
  assumes "\<forall>t \<in> set es. readable env t \<longrightarrow> valid_file env t"
    and "\<forall>s n tg. upload_outcome_of env s n tg = Finished_with_file"
    and "\<forall>s d. insert_ok env s d"
  shows "fst (for_each (process_tuple env) es s) = Inr ()"
  using assms(1)
proof (induction es arbitrary: s)
  case Nil
  show ?case by simp
next
  case (Cons t es)
  have "fst (process_tuple env t s) = Inr ()"
    using Cons.prems process_tuple_valid [OF _ assms(2,3)] process_tuple_unreadable
    by (cases "readable env t") auto
  then obtain s1 where "process_tuple env t s = (Inr (), s1)"
    by (cases "process_tuple env t s") auto
  with Cons show ?case by simp
qed


lemma run_script_not_started:
  assumes "MONGO_URI env = [] \<or> \<not> connect_ok env"
  shows "fst (run_script env s) = 1 \<and> imagesMeta (snd (run_script env s)) = imagesMeta s
     \<and> files (snd (run_script env s)) = files s"
  using assms by (auto simp: run_script_def walkAndUpload_def Let_def log_def)

lemma run_script_progress:
  assumes w: "walker env = (es, flt)"
    and run: "run_script env s = (code, s')"
  shows "\<exists>n ds. n \<le> length es \<and> imagesMeta s' = imagesMeta s @ ds \<and>
     map (\<lambda>x. doc_key (snd x)) ds = map entry_key (filter (readable env) (take n es)) \<and>
     (code = 0 \<longrightarrow> n = length es \<and> \<not> flt \<and>
        (\<exists>ls. console s' = console s @ Connected_line # ls @ [Complete_line] \<and>
           length (filter is_success_line ls) = length ds \<and>
           length (filter is_skip_line ls) = length (filter (\<lambda>t. \<not> readable env t) es)))"
proof (cases "MONGO_URI env = [] \<or> \<not> connect_ok env")
  case True
  from run_script_not_started [OF True, of s] run
  have "code = 1" "imagesMeta s' = imagesMeta s"
    by simp_all
  then show ?thesis
    by (intro exI [where x = 0] exI [where x = "[]"]) simp
next
  case False
  obtain r s1 where fe: "for_each (process_tuple env) es (log Connected_line s) = (r, s1)"
    by force
  from ingest_progress [OF fe] obtain n ds ls where
    p: "n \<le> length es" "imagesMeta s1 = imagesMeta s @ ds"
      "console s1 = console s @ Connected_line # ls"
      "map (\<lambda>x. doc_key (snd x)) ds = map entry_key (filter (readable env) (take n es))"
      "length (filter is_success_line ls) = length ds"
      "length (filter is_skip_line ls) = length (filter (\<lambda>t. \<not> readable env t) (take n es))"
      "r = Inr () \<longrightarrow> n = length es"
    by (auto simp: log_def)
  from False have eq: "run_script env s =
     (case r of
        Inl e \<Rightarrow> (1, log (Fatal_script_line e) s1)
      | Inr u \<Rightarrow>
          if flt then (1, log (Fatal_script_line Fs_error) s1)
          else if close_ok env then (0, log Complete_line s1)
          else (1, log (Fatal_script_line Close_error) (log Complete_line s1)))"
    using run_script_eq [OF _ _ w fe] by simp
  have meta: "imagesMeta s' = imagesMeta s1"
    using eq run by (auto simp: log_def split: sum.splits if_splits)
  have fin: "r = Inr () \<and> \<not> flt \<and> s' = log Complete_line s1" if "code = 0"
    using eq run that by (auto split: sum.splits if_splits)
  show ?thesis
    apply (rule exI [where x = n], rule exI [where x = ds])
    using p meta fin by (auto simp: log_def)
qed

lemma filter_dirs_readFileSync:
  "filter_dirs (env\<lparr>readFileSync := f\<rparr>) dir names = filter_dirs env dir names"
  by (induction names) (simp_all split: option.splits)

lemma list_dirs_readFileSync: "list_dirs (env\<lparr>readFileSync := f\<rparr>) = list_dirs env"
  by (intro ext) (simp add: list_dirs_def filter_dirs_readFileSync cong: option.case_cong)

lemma leaf_entries_readFileSync: "leaf_entries (env\<lparr>readFileSync := f\<rparr>) = leaf_entries env"
  by (intro ext) (simp add: leaf_entries_def)

lemma subcategory_entries_readFileSync:
  "subcategory_entries (env\<lparr>readFileSync := f\<rparr>) = subcategory_entries env"
  by (intro ext)
    (simp add: subcategory_entries_def list_dirs_readFileSync leaf_entries_readFileSync
      cong: option.case_cong if_cong)

lemma category_entries_readFileSync:
  "category_entries (env\<lparr>readFileSync := f\<rparr>) = category_entries env"
  by (intro ext)
    (simp add: category_entries_def list_dirs_readFileSync leaf_entries_readFileSync
      subcategory_entries_readFileSync cong: option.case_cong if_cong)

lemma walker_readFileSync: "walker (env\<lparr>readFileSync := f\<rparr>) = walker env"
  by (simp add: walker_def list_dirs_readFileSync category_entries_readFileSync
      cong: option.case_cong)

lemma run_script_all_valid:
  assumes uri: "MONGO_URI env \<noteq> []" and conn: "connect_ok env" and cl: "close_ok env"
    and w: "walker env = (es, False)"
    and valid: "\<forall>t \<in> set es. readable env t \<longrightarrow> valid_file env t"
    and up: "\<forall>s n tg. upload_outcome_of env s n tg = Finished_with_file"
    and ins: "\<forall>s d. insert_ok env s d"
  shows "\<exists>s' ds ls. run_script env s = (0, s') \<and> imagesMeta s' = imagesMeta s @ ds \<and>
     map (\<lambda>x. doc_key (snd x)) ds = map entry_key (filter (readable env) es) \<and>
     console s' = console s @ Connected_line # ls @ [Complete_line] \<and>
     length (filter is_success_line ls) = length ds \<and>
     length (filter is_skip_line ls) = length (filter (\<lambda>t. \<not> readable env t) es)"
proof -
  obtain r s1 where fe: "for_each (process_tuple env) es (log Connected_line s) = (r, s1)"
    by force
  with for_each_all_valid [OF valid up ins, of "log Connected_line s"] have r: "r = Inr ()"
    by simp
  obtain s' where run: "run_script env s = (0, s')"
    using run_script_eq [OF uri conn w fe] r cl by simp
  from run_script_progress [OF w run] run show ?thesis
    by auto
qed

subsection \<open>What the walker yields\<close>

lemma walk_concat_Cons: "walk_concat (w # ws) = walk_then w (walk_concat ws)"
  by (simp add: walk_concat_def)

lemma walk_concat_member:
  "t \<in> set (fst (walk_concat ws)) \<Longrightarrow> \<exists>w \<in> set ws. t \<in> set (fst w)"
proof (induction ws)
  case Nil
  then show ?case by (simp add: walk_concat_def)
next
  case (Cons w ws)
  then show ?case
    by (auto simp: walk_concat_Cons walk_then_def split: if_splits)
qed

lemma walk_concat_exact:
  "\<forall>w \<in> set ws. \<not> snd w \<Longrightarrow> walk_concat ws = (concat (map fst ws), False)"
proof (induction ws)
  case Nil
  show ?case by (simp add: walk_concat_def)
next
  case (Cons w ws)
  then show ?case
    by (simp add: walk_concat_Cons walk_then_def)
qed

lemma leaf_entries_listed:
  "readdirSync env dir = Some names \<Longrightarrow>
   leaf_entries env dir cat sub ssub =
     (map (\<lambda>f. (dir @ [f], cat, sub, ssub)) (filter is_image_name names), False)"
  by (simp add: leaf_entries_def path_join_def)

lemma leaf_entries_member:
  "t \<in> set (fst (leaf_entries env dir cat sub ssub)) \<Longrightarrow>
   \<exists>f. is_image_name f \<and> t = (dir @ [f], cat, sub, ssub)"
  by (auto simp: leaf_entries_def path_join_def split: option.splits)

lemma ingest_docs:
  assumes "ingest env w s = (r, s')"
  shows "\<exists>ds. imagesMeta s' = imagesMeta s @ ds \<and>
     set (map (\<lambda>x. doc_key (snd x)) ds) \<subseteq> entry_key ` set (fst w)"
proof -
  obtain r1 s1 where fe: "for_each (process_tuple env) (fst w) s = (r1, s1)"
    by force
  with assms have s': "s' = s1"
    by (auto simp: ingest_def split: sum.splits if_splits)
  from ingest_progress [OF fe] obtain n ds where
    m: "imagesMeta s1 = imagesMeta s @ ds"
    and k: "map (\<lambda>x. doc_key (snd x)) ds =
      map entry_key (filter (readable env) (take n (fst w)))"
    by blast
  have "set (map entry_key (filter (readable env) (take n (fst w))))
      \<subseteq> entry_key ` set (fst w)"
    using set_take_subset [of n "fst w"] by auto
  with k have "set (map (\<lambda>x. doc_key (snd x)) ds) \<subseteq> entry_key ` set (fst w)"
    by simp
  with m s' show ?thesis by blast
qed

subsection \<open>The responses of the file route\<close>

lemma flush_head_sent: "sent_status r = Some c \<Longrightarrow> flush_head r = r"
  by (simp add: flush_head_def)

lemma piped_chunks:
  "foldl (\<lambda>r c. write_part (Bytes c) r) r cs =
     (if cs = [] then r else (flush_head r)\<lparr>res_body := res_body r @ map Bytes cs\<rparr>)"
proof (induction cs arbitrary: r)
  case Nil
  show ?case by simp
next
  case (Cons c cs)
  have "foldl (\<lambda>r c. write_part (Bytes c) r) r (c # cs) =
      foldl (\<lambda>r c. write_part (Bytes c) r) (write_part (Bytes c) r) cs"
    by simp
  also have "\<dots> =
      (if cs = [] then write_part (Bytes c) r
       else (flush_head (write_part (Bytes c) r))
         \<lparr>res_body := res_body (write_part (Bytes c) r) @ map Bytes cs\<rparr>)"
    by (rule Cons)
  also have "\<dots> = (flush_head r)\<lparr>res_body := res_body r @ map Bytes (c # cs)\<rparr>"
    by (cases "sent_status r") (simp_all add: write_part_def flush_head_def)
  finally show ?case by simp
qed

lemma get_file_bad_id:
  assumes "new_ObjectId env fileId = None"
  shows "get_file env fileId new_response =
     (\<lparr>statusCode = 400, sent_status = Some 400,
       res_headers = [(''Content-Type'', ''text/html; charset=utf-8'')],
       res_body = [Text ''bad id''], res_ended = True\<rparr>, Returned)"
  using assms
  by (simp add: get_file_def status_send_def send_text_def setHeader_def write_part_def
      end_response_def flush_head_def new_response_def)

lemma get_file_not_found:
  assumes "new_ObjectId env fileId = Some oid" and "findOne env oid = Some None"
  shows "get_file env fileId new_response =
     (\<lparr>statusCode = 404, sent_status = Some 404,
       res_headers = [(''Content-Type'', ''text/html; charset=utf-8'')],
       res_body = [Text ''file not found''], res_ended = True\<rparr>, Returned)"
  using assms
  by (simp add: get_file_def status_send_def send_text_def setHeader_def write_part_def
      end_response_def flush_head_def new_response_def)

lemma get_file_streamed:
  assumes "new_ObjectId env fileId = Some oid" and "findOne env oid = Some (Some fileDoc)"
    and "openDownloadStream env oid = (chunks, False)"
  shows "get_file env fileId new_response =
     (\<lparr>statusCode = 200, sent_status = Some 200,
       res_headers = [(''Cache-Control'', ''public, max-age=31536000, immutable''),
         (''Content-Type'',
          if file_contentType fileDoc = [] then ''image/webp'' else file_contentType fileDoc)],
       res_body = map Bytes chunks, res_ended = True\<rparr>, Returned)"
  using assms
  by (simp add: get_file_def setHeader_def piped_chunks end_response_def flush_head_def
      new_response_def Let_def)

lemma get_file_fault_at_start:
  assumes "new_ObjectId env fileId = Some oid" and "findOne env oid = Some (Some fileDoc)"
    and "openDownloadStream env oid = ([], True)"
  shows "get_file env fileId new_response =
     (\<lparr>statusCode = 500, sent_status = Some 500,
       res_headers = [(''Content-Type'', ''text/plain; charset=utf-8''),
         (''Cache-Control'', ''public, max-age=31536000, immutable'')],
       res_body = [Text ''Internal Server Error''], res_ended = True\<rparr>, Returned)"
  using assms
  by (simp add: get_file_def setHeader_def sendStatus_def send_text_def write_part_def
      end_response_def flush_head_def new_response_def Let_def)

lemma get_file_fault_mid_transfer:
  assumes "new_ObjectId env fileId = Some oid" and "findOne env oid = Some (Some fileDoc)"
    and "openDownloadStream env oid = (c # cs, True)"
  shows "get_file env fileId new_response =
     (\<lparr>statusCode = 500, sent_status = Some 200,
       res_headers = [(''Cache-Control'', ''public, max-age=31536000, immutable''),
         (''Content-Type'',
          if file_contentType fileDoc = [] then ''image/webp'' else file_contentType fileDoc)],
       res_body = map Bytes (c # cs), res_ended = False\<rparr>, Listener_threw)"
  using assms
  by (simp add: get_file_def setHeader_def sendStatus_def send_text_def piped_chunks
      flush_head_def new_response_def Let_def)

subsection \<open>The example runs, evaluated\<close>

lemma demo_processFile:
  "fst (processFile demo_env [''root'', ''Ribbons'', ''Velvet'', ''a.jpg''] ''Ribbons''
          (Some ''Velvet'') None init_state) = Inr (Some 2)"
  by (simp add: processFile_def demo_env_def demo_files_def init_state_def demo_metadata_def
      demo_toBuffer_def uploadBufferToGridFS_def insertOne_def Let_def)

lemma demo_processFile_pair:
  "processFile demo_env [''root'', ''Ribbons'', ''Velvet'', ''a.jpg''] ''Ribbons''
          (Some ''Velvet'') None init_state =
   (Inr (Some 2), snd (processFile demo_env [''root'', ''Ribbons'', ''Velvet'', ''a.jpg'']
          ''Ribbons'' (Some ''Velvet'') None init_state))"
  using demo_processFile by (simp add: prod_eq_iff)

lemma demo_walker: "walker demo_env = (demo_entries, False)"
  by code_simp

lemma unreadable_walker: "walker unreadable_env = (demo_entries, False)"
  by (simp add: unreadable_env_def walker_readFileSync demo_walker)


lemma single_walker:
  "walker (single_env ok) = ([([''root'', ''Laces'', ''x.JPG''], ''Laces'', None, None)], False)"
  by (cases ok) (simp_all, code_simp+)

lemma demo_keys:
  "map entry_key demo_entries =
     [(''b.jpg'', ''Ribbons'', Some ''Velvet'', None),
      (''a.jpg'', ''Ribbons'', Some ''Velvet'', None),
      (''c.webp'', ''Ribbons'', Some ''Satin'', Some ''Cotton''),
      (''x.JPG'', ''Laces'', None, None)]"
  by (simp add: demo_entries_def entry_key_def basename_def string_or_null_def)

lemma demo_env_ok:
  "MONGO_URI demo_env \<noteq> []" "connect_ok demo_env" "close_ok demo_env"
  "\<forall>s n tg. upload_outcome_of demo_env s n tg = Finished_with_file"
  "\<forall>s d. insert_ok demo_env s d"
  by (simp_all add: demo_env_def)

lemma demo_readable: "filter (readable demo_env) demo_entries = demo_entries"
  by (simp add: demo_entries_def readable_def demo_env_def demo_files_def)

lemma demo_all_valid: "\<forall>t \<in> set demo_entries. readable demo_env t \<longrightarrow> valid_file demo_env t"
  by (simp add: demo_entries_def valid_file_def decodable_def demo_env_def demo_files_def
      demo_metadata_def demo_toBuffer_def)

lemma unreadable_env_ok:
  "MONGO_URI unreadable_env \<noteq> []" "connect_ok unreadable_env" "close_ok unreadable_env"
  "\<forall>s n tg. upload_outcome_of unreadable_env s n tg = Finished_with_file"
  "\<forall>s d. insert_ok unreadable_env s d"
  by (simp_all add: unreadable_env_def demo_env_def)

lemma unreadable_readable:
  "filter (readable unreadable_env) demo_entries =
     [([''root'', ''Ribbons'', ''Velvet'', ''b.jpg''], ''Ribbons'', Some ''Velvet'', None),
      ([''root'', ''Ribbons'', ''Satin'', ''Cotton'', ''c.webp''], ''Ribbons'', Some ''Satin'',
       Some ''Cotton''),
      ([''root'', ''Laces'', ''x.JPG''], ''Laces'', None, None)]"
  by (simp add: demo_entries_def readable_def unreadable_env_def demo_env_def demo_files_def)

lemma unreadable_all_valid:
  "\<forall>t \<in> set demo_entries. readable unreadable_env t \<longrightarrow> valid_file unreadable_env t"
  by (simp add: demo_entries_def readable_def valid_file_def decodable_def unreadable_env_def
      demo_env_def demo_files_def demo_metadata_def demo_toBuffer_def)

lemma demo_run:
  "\<exists>s'. run_script demo_env init_state = (0, s') \<and>
     map (\<lambda>x. doc_key (snd x)) (imagesMeta s') = map entry_key demo_entries"
proof -
  from run_script_all_valid [OF demo_env_ok(1-3) demo_walker demo_all_valid demo_env_ok(4,5),
      of init_state]
  obtain s' ds where "run_script demo_env init_state = (0, s')"
    "imagesMeta s' = imagesMeta init_state @ ds"
    "map (\<lambda>x. doc_key (snd x)) ds = map entry_key (filter (readable demo_env) demo_entries)"
    by blast
  then show ?thesis
    by (simp add: demo_readable init_state_def)
qed

lemma filenames_by_key:
  "map (\<lambda>x. doc_filename (snd x)) (filter (\<lambda>x. doc_subcategory (snd x) = c) ms) =
   map fst (filter (\<lambda>k. fst (snd (snd k)) = c) (map (\<lambda>x. doc_key (snd x)) ms))"
  by (induction ms) (simp_all add: doc_key_def)

lemma single_env_ok:
  "MONGO_URI (single_env b) \<noteq> []" "connect_ok (single_env b)" "close_ok (single_env b)"
  by (simp_all add: single_env_def demo_env_def)

lemma single_ingested:
  "\<exists>s1. for_each (process_tuple (single_env True))
        [([''root'', ''Laces'', ''x.JPG''], ''Laces'', None, None)]
        (log Connected_line init_state) = (Inr (), s1) \<and>
      console s1 = [Connected_line, Processing_line ''x.JPG'' ''Laces'' None None,
        Success_line ''x.JPG''] \<and> length (imagesMeta s1) = 1"
  by (simp add: process_tuple_def processFile_def single_env_def demo_env_def demo_files_def
      init_state_def demo_metadata_def demo_toBuffer_def uploadBufferToGridFS_def
      insertOne_def Let_def basename_def log_def)

lemma single_skipped:
  "\<exists>s1. for_each (process_tuple (single_env False))
        [([''root'', ''Laces'', ''x.JPG''], ''Laces'', None, None)]
        (log Connected_line init_state) = (Inr (), s1) \<and>
      console s1 = [Connected_line, Processing_line ''x.JPG'' ''Laces'' None None,
        Skip_line ''x.JPG''] \<and> length (imagesMeta s1) = 0"
  by (simp add: process_tuple_def processFile_def single_env_def demo_env_def
      init_state_def Let_def basename_def log_def)

lemma single_run_ingested:
  "\<exists>s'. run_script (single_env True) init_state = (0, s') \<and>
     console s' = [Connected_line, Processing_line ''x.JPG'' ''Laces'' None None,
       Success_line ''x.JPG'', Complete_line] \<and> length (imagesMeta s') = 1"
proof -
  from single_ingested obtain s1 where fe: "for_each (process_tuple (single_env True))
        [([''root'', ''Laces'', ''x.JPG''], ''Laces'', None, None)]
        (log Connected_line init_state) = (Inr (), s1)"
    and s1: "console s1 = [Connected_line, Processing_line ''x.JPG'' ''Laces'' None None,
        Success_line ''x.JPG'']" "length (imagesMeta s1) = 1"
    by blast
  have "run_script (single_env True) init_state = (0, log Complete_line s1)"
    using run_script_eq [OF single_env_ok(1,2) single_walker fe] single_env_ok(3) by simp
  with s1 show ?thesis by (simp add: log_def)
qed

lemma single_run_skipped:
  "\<exists>s'. run_script (single_env False) init_state = (0, s') \<and>
     console s' = [Connected_line, Processing_line ''x.JPG'' ''Laces'' None None,
       Skip_line ''x.JPG'', Complete_line] \<and> length (imagesMeta s') = 0"
proof -
  from single_skipped obtain s1 where fe: "for_each (process_tuple (single_env False))
        [([''root'', ''Laces'', ''x.JPG''], ''Laces'', None, None)]
        (log Connected_line init_state) = (Inr (), s1)"
    and s1: "console s1 = [Connected_line, Processing_line ''x.JPG'' ''Laces'' None None,
        Skip_line ''x.JPG'']" "length (imagesMeta s1) = 0"
    by blast
  have "run_script (single_env False) init_state = (0, log Complete_line s1)"
    using run_script_eq [OF single_env_ok(1,2) single_walker fe] single_env_ok(3) by simp
  with s1 show ?thesis by (simp add: log_def)
qed



lemma corrupt_second:
  "processFile corrupt_env [''root'', ''Ribbons'', ''Velvet'', ''a.jpg''] ''Ribbons''
     (Some ''Velvet'') None s = (Inl Decode_error, s)"
  by (simp add: processFile_def corrupt_env_def demo_env_def demo_metadata_def)


lemma demo_satin:
  "list_dirs demo_env ([''root'', ''Ribbons''] @ [''Satin'']) = Some [''Cotton'']"
  "readdirSync demo_env [''root'', ''Ribbons'', ''Satin''] = Some [''loose.png'', ''Cotton'']"
  "readdirSync demo_env [''root'', ''Ribbons'', ''Satin'', ''Cotton''] = Some [''c.webp'']"
  "is_image_name ''loose.png''" "is_image_name ''c.webp''" "\<not> is_image_name ''Cotton''"
  by code_simp+

lemma demo_velvet:
  "list_dirs demo_env ([''root'', ''Ribbons''] @ [''Velvet'']) = Some []"
  "readdirSync demo_env [''root'', ''Ribbons'', ''Velvet''] = Some [''b.jpg'', ''a.jpg'']"
  "is_image_name ''b.jpg''" "is_image_name ''a.jpg''"
  by code_simp+










section \<open>The claims\<close>

subsection \<open>Variants\<close>

text \<open>
  C4. For every decodable source image the thumbnail is produced with width at most 600
  at quality 75 and the full variant with width at most 1600 at quality 82; neither is
  wider than the source, and the thumbnail is not wider than the full variant. The
  widths are those of \<open>variant_width\<close> for the two pipelines \<open>processFile\<close> passes to
  sharp, for a source of any width \<open>w\<close>; the last part says that the two blobs of an
  ingested file are the outputs of exactly these pipelines on the bytes read.
\<close>

theorem C4_variant_widths:
  "variant_width thumb_pipeline w \<le> 600 \<and> webp_quality thumb_pipeline = 75 \<and>
   variant_width full_pipeline w \<le> 1600 \<and> webp_quality full_pipeline = 82 \<and>
   variant_width thumb_pipeline w \<le> w \<and> variant_width full_pipeline w \<le> w \<and>
   variant_width thumb_pipeline w \<le> variant_width full_pipeline w \<and>
   (processFile env p cat sub ssub s = (Inr (Some i), s') \<longrightarrow>
      (\<exists>buf tf ff. readFileSync env p = Some buf \<and> files s' = files s @ [tf, ff] \<and>
         tag_variant (file_metadata tf) = ''thumbnail'' \<and>
         sharp_toBuffer env thumb_pipeline buf = Some (file_data tf) \<and>
         tag_variant (file_metadata ff) = ''full'' \<and>
         sharp_toBuffer env full_pipeline buf = Some (file_data ff)))"
proof -
  have geometry: "variant_width thumb_pipeline w \<le> 600" "webp_quality thumb_pipeline = 75"
    "variant_width full_pipeline w \<le> 1600" "webp_quality full_pipeline = 82"
    "variant_width thumb_pipeline w \<le> w" "variant_width full_pipeline w \<le> w"
    "variant_width thumb_pipeline w \<le> variant_width full_pipeline w"
    by (simp_all add: variant_width_def thumb_pipeline_def full_pipeline_def)
  have link: "\<exists>buf tf ff. readFileSync env p = Some buf \<and> files s' = files s @ [tf, ff] \<and>
         tag_variant (file_metadata tf) = ''thumbnail'' \<and>
         sharp_toBuffer env thumb_pipeline buf = Some (file_data tf) \<and>
         tag_variant (file_metadata ff) = ''full'' \<and>
         sharp_toBuffer env full_pipeline buf = Some (file_data ff)"
    if pf: "processFile env p cat sub ssub s = (Inr (Some i), s')"
  proof -
    from processFile_done [OF pf] obtain buf tf ff where
      "readFileSync env p = Some buf" "files s' = files s @ [tf, ff]"
      "sharp_toBuffer env thumb_pipeline buf = Some (file_data tf)"
      "sharp_toBuffer env full_pipeline buf = Some (file_data ff)"
      "tag_variant (file_metadata tf) = ''thumbnail''"
      "tag_variant (file_metadata ff) = ''full''"
      by auto
    then show ?thesis by blast
  qed
  from geometry link show ?thesis by blast
qed

theorem C4_variant_widths_witness:
  "variant_width thumb_pipeline 2000 = 600 \<and> variant_width full_pipeline 2000 = 1600 \<and>
   variant_width thumb_pipeline 16 = 16 \<and> variant_width full_pipeline 16 = 16 \<and>
   (\<exists>tf ff. files (snd (processFile demo_env [''root'', ''Ribbons'', ''Velvet'', ''a.jpg'']
          ''Ribbons'' (Some ''Velvet'') None init_state)) = [tf, ff] \<and>
       tag_variant (file_metadata tf) = ''thumbnail'' \<and> file_data tf = [75, 2, 2] \<and>
       tag_variant (file_metadata ff) = ''full'' \<and> file_data ff = [82, 2, 2])"
  using C4_variant_widths [of 2000 demo_env "[''root'', ''Ribbons'', ''Velvet'', ''a.jpg'']"
      "''Ribbons''" "Some ''Velvet''" None init_state 2
      "snd (processFile demo_env [''root'', ''Ribbons'', ''Velvet'', ''a.jpg'']
          ''Ribbons'' (Some ''Velvet'') None init_state)"]
    demo_processFile_pair
  by (auto simp: variant_width_def thumb_pipeline_def full_pipeline_def demo_env_def
      demo_files_def demo_toBuffer_def init_state_def)

text \<open>
  C10 (as amended). For a source image narrower than 20 pixels that sharp decodes and
  on which the placeholder pipeline succeeds as well, the placeholder is upscaled to
  width 20: its resize leaves out \<open>withoutEnlargement\<close>, which the thumbnail and the full
  variant set, so these two keep the source width while the placeholder does not.
  \<open>processFile\<close> then gets past the sharp stage, every record it sends to the index carries
  the output of this pipeline on the bytes read, and with a store and an index that do
  not fault the record is inserted with it.
\<close>

theorem C10_placeholder_upscaled:
  assumes rd: "readFileSync env p = Some buf"
    and md: "sharp_metadata env buf = Some m" and narrow: "meta_width m < 20"
    and tb: "sharp_toBuffer env thumb_pipeline buf = Some tb"
    and fb: "sharp_toBuffer env full_pipeline buf = Some fb"
    and lb: "sharp_toBuffer env lqip_pipeline buf = Some lb"
    and pf: "processFile env p cat sub ssub s = (r, s')"
  shows "variant_width lqip_pipeline (meta_width m) = 20 \<and>
     meta_width m < variant_width lqip_pipeline (meta_width m) \<and>
     \<not> withoutEnlargement lqip_pipeline \<and>
     withoutEnlargement thumb_pipeline \<and> withoutEnlargement full_pipeline \<and>
     variant_width thumb_pipeline (meta_width m) = meta_width m \<and>
     variant_width full_pipeline (meta_width m) = meta_width m \<and>
     r \<noteq> Inl Decode_error \<and> r \<noteq> Inr None \<and>
     (\<exists>cs. calls s' = calls s @ cs \<and>
        (\<forall>d ok. Insert_call d ok \<in> set cs \<longrightarrow>
           doc_lqip d = ''data:image/webp;base64,'' @ base64 lb)) \<and>
     ((\<forall>s n tg. upload_outcome_of env s n tg = Finished_with_file) \<and>
      (\<forall>s d. insert_ok env s d) \<longrightarrow>
        (\<exists>i d. r = Inr (Some i) \<and> imagesMeta s' = imagesMeta s @ [(i, d)] \<and>
           doc_lqip d = ''data:image/webp;base64,'' @ base64 lb))"
proof -
  have geometry: "variant_width lqip_pipeline (meta_width m) = 20 \<and>
     meta_width m < variant_width lqip_pipeline (meta_width m) \<and>
     \<not> withoutEnlargement lqip_pipeline \<and>
     withoutEnlargement thumb_pipeline \<and> withoutEnlargement full_pipeline \<and>
     variant_width thumb_pipeline (meta_width m) = meta_width m \<and>
     variant_width full_pipeline (meta_width m) = meta_width m"
    using narrow
    by (simp add: variant_width_def lqip_pipeline_def thumb_pipeline_def full_pipeline_def)
  have passed: "r \<noteq> Inl Decode_error"
    using rd md tb fb lb pf
    by (auto simp: processFile_def uploadBufferToGridFS_def insertOne_def Let_def
        split: upload_outcome.splits if_splits)
  note carried = processFile_placeholder [OF rd lb pf]
  have stored: "\<exists>i d. r = Inr (Some i) \<and> imagesMeta s' = imagesMeta s @ [(i, d)] \<and>
           doc_lqip d = ''data:image/webp;base64,'' @ base64 lb"
    if up: "\<forall>s n tg. upload_outcome_of env s n tg = Finished_with_file"
      and ins: "\<forall>s d. insert_ok env s d"
  proof -
    from processFile_ingests [OF rd md tb fb lb up ins, of cat sub ssub s] pf
    obtain i where r: "processFile env p cat sub ssub s = (Inr (Some i), s')"
      by auto
    from processFile_done [OF r] rd lb obtain d where
      "imagesMeta s' = imagesMeta s @ [(i, d)]"
      "doc_lqip d = ''data:image/webp;base64,'' @ base64 lb"
      by auto
    with r pf show ?thesis by auto
  qed
  from geometry passed carried stored show ?thesis
    by blast
qed

theorem C10_placeholder_upscaled_witness:
  "sharp_metadata demo_env [2, 2] =
     Some \<lparr>meta_width = 16, meta_height = 8, meta_format = ''jpeg''\<rparr> \<and>
   sharp_toBuffer demo_env lqip_pipeline [2, 2] = Some [30, 2, 2] \<and>
   variant_width lqip_pipeline 16 = 20 \<and> variant_width thumb_pipeline 16 = 16 \<and>
   (\<exists>i d. imagesMeta (snd (processFile demo_env [''root'', ''Ribbons'', ''Velvet'', ''a.jpg'']
          ''Ribbons'' (Some ''Velvet'') None init_state)) = [(i, d)] \<and>
      doc_lqip d = ''data:image/webp;base64,'' @ base64 [30, 2, 2])"
  using C10_placeholder_upscaled [of demo_env "[''root'', ''Ribbons'', ''Velvet'', ''a.jpg'']"
      "[2, 2]" "\<lparr>meta_width = 16, meta_height = 8, meta_format = ''jpeg''\<rparr>"
      "[75, 2, 2]" "[82, 2, 2]" "[30, 2, 2]" "''Ribbons''" "Some ''Velvet''" None init_state
      "fst (processFile demo_env [''root'', ''Ribbons'', ''Velvet'', ''a.jpg'']
          ''Ribbons'' (Some ''Velvet'') None init_state)"
      "snd (processFile demo_env [''root'', ''Ribbons'', ''Velvet'', ''a.jpg'']
          ''Ribbons'' (Some ''Velvet'') None init_state)"]
    demo_env_ok(4,5)
  by (auto simp: demo_env_def demo_files_def demo_metadata_def demo_toBuffer_def
      init_state_def lqip_pipeline_def thumb_pipeline_def full_pipeline_def)

text \<open>
  C10 as stated fails: it promises a placeholder of width 20 for every decodable source
  narrower than 20 pixels. A source of 1 by 1000 pixels is decoded, and its thumbnail and
  full variant are produced, but enlarged to width 20 it is 20000 pixels high, more than
  a WebP image can be, and the placeholder pipeline throws: no placeholder exists and
  \<open>processFile\<close> fails before any upload.
\<close>

theorem C10_tall_source_no_placeholder:
  "readFileSync tall_env [''root'', ''Ribbons'', ''Velvet'', ''a.jpg''] = Some [2, 2] \<and>
   sharp_metadata tall_env [2, 2] =
     Some \<lparr>meta_width = 1, meta_height = 1000, meta_format = ''png''\<rparr> \<and>
   sharp_toBuffer tall_env thumb_pipeline [2, 2] = Some [75, 2, 2] \<and>
   sharp_toBuffer tall_env full_pipeline [2, 2] = Some [82, 2, 2] \<and>
   sharp_toBuffer tall_env lqip_pipeline [2, 2] = None \<and>
   processFile tall_env [''root'', ''Ribbons'', ''Velvet'', ''a.jpg''] ''Ribbons''
     (Some ''Velvet'') None init_state = (Inl Decode_error, init_state) \<and>
   calls init_state = [] \<and> imagesMeta init_state = []"
  by (simp add: tall_env_def demo_env_def demo_files_def demo_metadata_def demo_toBuffer_def
      processFile_def thumb_pipeline_def full_pipeline_def lqip_pipeline_def init_state_def
      Let_def)



subsection \<open>One file\<close>

text \<open>
  C1. A metadata record is built and inserted only after the thumbnail upload and the
  full upload have both returned their file documents, so when it is written both of
  its blob ids are ids of blobs in the bucket; the insert is sent exactly once. Either
  the requests of \<open>processFile\<close> are the two successful uploads followed by one
  \<open>insertOne\<close>, whose document names the two blobs just stored (and the record is in the
  index exactly when the insert was acknowledged), or no \<open>insertOne\<close> was sent and the
  index is unchanged.
\<close>

theorem C1_insert_after_uploads:
  assumes pf: "processFile env p cat sub ssub s = (r, s')"
  shows "(\<exists>d ok tf ff.
        calls s' = calls s @
          [Upload_call (basename p @ ''-thumb.webp'') Finished_with_file,
           Upload_call (basename p @ ''-full.webp'') Finished_with_file,
           Insert_call d ok] \<and>
        files s' = files s @ [tf, ff] \<and>
        tag_variant (file_metadata tf) = ''thumbnail'' \<and>
        tag_variant (file_metadata ff) = ''full'' \<and>
        doc_thumbnailId d = file_id tf \<and> doc_fullId d = file_id ff \<and>
        (if ok then \<exists>i. r = Inr (Some i) \<and> imagesMeta s' = imagesMeta s @ [(i, d)]
         else r = Inl Index_write_error \<and> imagesMeta s' = imagesMeta s))
     \<or> ((\<forall>d ok. Insert_call d ok \<notin> set (drop (length (calls s)) (calls s'))) \<and>
         imagesMeta s' = imagesMeta s \<and> (\<forall>i. r \<noteq> Inr (Some i)))"
proof (cases r)
  case (Inl e)
  note f = processFile_failed [OF pf [unfolded Inl]]
  show ?thesis
  proof (cases "e = Index_write_error")
    case True
    with f obtain d tf ff where
      "files s' = files s @ [tf, ff]" "tag_variant (file_metadata tf) = ''thumbnail''"
      "tag_variant (file_metadata ff) = ''full''"
      "doc_thumbnailId d = file_id tf" "doc_fullId d = file_id ff"
      "calls s' = calls s @ [Upload_call (basename p @ ''-thumb.webp'') Finished_with_file,
               Upload_call (basename p @ ''-full.webp'') Finished_with_file,
               Insert_call d False]"
      "imagesMeta s' = imagesMeta s"
      by auto
    with Inl True show ?thesis
      by (intro disjI1 exI [where x = d] exI [where x = False] exI [where x = tf]
          exI [where x = ff]) simp
  next
    case False
    with f have "\<forall>d ok. Insert_call d ok \<notin> set (drop (length (calls s)) (calls s'))"
      by auto
    with f Inl show ?thesis by simp
  qed
next
  case (Inr v)
  show ?thesis
  proof (cases v)
    case None
    with processFile_null [OF pf [unfolded Inr None]] Inr show ?thesis
      by (simp add: log_def)
  next
    case (Some i)
    from processFile_done [OF pf [unfolded Inr Some]] obtain d tf ff where
      "files s' = files s @ [tf, ff]"
      "file_metadata tf = \<lparr>tag_category = cat, tag_subcategory = sub,
        tag_subsubcategory = ssub, tag_variant = ''thumbnail''\<rparr>"
      "file_metadata ff = \<lparr>tag_category = cat, tag_subcategory = sub,
        tag_subsubcategory = ssub, tag_variant = ''full''\<rparr>"
      "doc_thumbnailId d = file_id tf" "doc_fullId d = file_id ff"
      "calls s' = calls s @ [Upload_call (basename p @ ''-thumb.webp'') Finished_with_file,
        Upload_call (basename p @ ''-full.webp'') Finished_with_file, Insert_call d True]"
      "imagesMeta s' = imagesMeta s @ [(i, d)]"
      by auto
    with Inr Some show ?thesis
      by (intro disjI1 exI [where x = d] exI [where x = True] exI [where x = tf]
          exI [where x = ff]) simp
  qed
qed

theorem C1_insert_after_uploads_witness:
  "(\<exists>d. calls (snd (processFile demo_env [''root'', ''Ribbons'', ''Velvet'', ''a.jpg'']
          ''Ribbons'' (Some ''Velvet'') None init_state)) =
        [Upload_call ''a.jpg-thumb.webp'' Finished_with_file,
         Upload_call ''a.jpg-full.webp'' Finished_with_file,
         Insert_call d True] \<and>
        imagesMeta (snd (processFile demo_env [''root'', ''Ribbons'', ''Velvet'', ''a.jpg'']
          ''Ribbons'' (Some ''Velvet'') None init_state)) = [(2, d)] \<and>
        doc_thumbnailId d = 0 \<and> doc_fullId d = 1) \<and>
   map file_id (files (snd (processFile demo_env [''root'', ''Ribbons'', ''Velvet'', ''a.jpg'']
          ''Ribbons'' (Some ''Velvet'') None init_state))) = [0, 1]"
  using C1_insert_after_uploads [OF demo_processFile_pair]
  by (simp add: processFile_def demo_env_def demo_files_def init_state_def demo_metadata_def
      demo_toBuffer_def uploadBufferToGridFS_def insertOne_def Let_def basename_def log_def)

subsection \<open>A run\<close>

text \<open>
  C3. A file whose read fails is skipped: \<open>processFile\<close> prints the skip line and
  returns null with the bucket, the index and the requests sent unchanged, and the loop
  goes on to the next file. A run in which every file the walker yields is either
  unreadable or valid, on a store and an index that do not fault, ends with exit status
  0, has inserted one record for every readable file, in the walker's order, and has
  printed one skip line for every unreadable one.
\<close>

theorem C3_unreadable_file_skipped:
  assumes "MONGO_URI env \<noteq> []" and "connect_ok env" and "close_ok env"
    and "walker env = (es, False)"
    and "\<forall>t \<in> set es. readable env t \<longrightarrow> valid_file env t"
    and "\<forall>s n tg. upload_outcome_of env s n tg = Finished_with_file"
    and "\<forall>s d. insert_ok env s d"
  shows "(\<forall>p cat sub ssub s0. readFileSync env p = None \<longrightarrow>
        processFile env p cat sub ssub s0 = (Inr None, s0\<lparr>console := console s0 @ [Skip_line (basename p)]\<rparr>))
     \<and> (\<exists>s' ds ls. run_script env s = (0, s') \<and> imagesMeta s' = imagesMeta s @ ds \<and>
          map (\<lambda>x. doc_key (snd x)) ds = map entry_key (filter (readable env) es) \<and>
          console s' = console s @ Connected_line # ls @ [Complete_line] \<and>
          length (filter is_skip_line ls) = length (filter (\<lambda>t. \<not> readable env t) es))"
proof -
  have "processFile env p cat sub ssub s0 =
      (Inr None, s0\<lparr>console := console s0 @ [Skip_line (basename p)]\<rparr>)"
    if "readFileSync env p = None" for p cat sub ssub s0
    using processFile_skip [OF that] by (simp add: log_def)
  moreover from run_script_all_valid [OF assms, of s]
  have "\<exists>s' ds ls. run_script env s = (0, s') \<and> imagesMeta s' = imagesMeta s @ ds \<and>
          map (\<lambda>x. doc_key (snd x)) ds = map entry_key (filter (readable env) es) \<and>
          console s' = console s @ Connected_line # ls @ [Complete_line] \<and>
          length (filter is_skip_line ls) = length (filter (\<lambda>t. \<not> readable env t) es)"
    by blast
  ultimately show ?thesis by blast
qed

theorem C3_unreadable_file_skipped_witness:
  "readFileSync unreadable_env [''root'', ''Ribbons'', ''Velvet'', ''a.jpg''] = None \<and>
   processFile unreadable_env [''root'', ''Ribbons'', ''Velvet'', ''a.jpg''] ''Ribbons''
      (Some ''Velvet'') None init_state =
     (Inr None, init_state\<lparr>console := [Skip_line ''a.jpg'']\<rparr>) \<and>
   (\<exists>s'. run_script unreadable_env init_state = (0, s') \<and>
      map (\<lambda>x. doc_key (snd x)) (imagesMeta s') =
        [(''b.jpg'', ''Ribbons'', Some ''Velvet'', None),
         (''c.webp'', ''Ribbons'', Some ''Satin'', Some ''Cotton''),
         (''x.JPG'', ''Laces'', None, None)])"
proof -
  have unread: "readFileSync unreadable_env [''root'', ''Ribbons'', ''Velvet'', ''a.jpg''] = None"
    by (simp add: unreadable_env_def)
  note c3 = C3_unreadable_file_skipped [OF unreadable_env_ok(1-3) unreadable_walker
      unreadable_all_valid unreadable_env_ok(4,5), of init_state]
  from c3 unread have "processFile unreadable_env [''root'', ''Ribbons'', ''Velvet'', ''a.jpg'']
      ''Ribbons'' (Some ''Velvet'') None init_state =
     (Inr None, init_state\<lparr>console := [Skip_line ''a.jpg'']\<rparr>)"
    by (simp add: basename_def init_state_def)
  moreover from c3 obtain s' ds where "run_script unreadable_env init_state = (0, s')"
    "imagesMeta s' = imagesMeta init_state @ ds"
    "map (\<lambda>x. doc_key (snd x)) ds = map entry_key (filter (readable unreadable_env) demo_entries)"
    by blast
  then have "\<exists>s'. run_script unreadable_env init_state = (0, s') \<and>
      map (\<lambda>x. doc_key (snd x)) (imagesMeta s') =
        [(''b.jpg'', ''Ribbons'', Some ''Velvet'', None),
         (''c.webp'', ''Ribbons'', Some ''Satin'', Some ''Cotton''),
         (''x.JPG'', ''Laces'', None, None)]"
    by (simp add: unreadable_readable init_state_def entry_key_def basename_def
        string_or_null_def)
  ultimately show ?thesis using unread by blast
qed



text \<open>
  C6 (as amended). The records a run inserts are, in order, those of the readable
  files among the first \<open>n\<close> tuples of the walker, and of all its tuples when the run
  exits with status 0: records are inserted in the order the walker finds the files.
  That order is depth-first with the entries of every directory in the order
  \<open>readdirSync\<close> returns them; the script does not sort a listing.
\<close>

theorem C6_insertion_order:
  assumes "walker env = (es, flt)" and "run_script env s = (code, s')"
  shows "\<exists>n ds. n \<le> length es \<and> imagesMeta s' = imagesMeta s @ ds \<and>
     map (\<lambda>x. doc_key (snd x)) ds = map entry_key (filter (readable env) (take n es)) \<and>
     (code = 0 \<longrightarrow> n = length es)"
  using run_script_progress [OF assms] by blast

theorem C6_insertion_order_witness:
  "fst (run_script demo_env init_state) = 0 \<and>
   map (\<lambda>x. doc_key (snd x)) (imagesMeta (snd (run_script demo_env init_state))) =
     [(''b.jpg'', ''Ribbons'', Some ''Velvet'', None),
      (''a.jpg'', ''Ribbons'', Some ''Velvet'', None),
      (''c.webp'', ''Ribbons'', Some ''Satin'', Some ''Cotton''),
      (''x.JPG'', ''Laces'', None, None)]"
proof -
  from demo_run obtain s' where run: "run_script demo_env init_state = (0, s')"
    by blast
  from C6_insertion_order [OF demo_walker run] obtain n ds where
    "imagesMeta s' = imagesMeta init_state @ ds"
    "map (\<lambda>x. doc_key (snd x)) ds = map entry_key (filter (readable demo_env) (take n demo_entries))"
    "n = length demo_entries"
    by blast
  then have "map (\<lambda>x. doc_key (snd x)) (imagesMeta s') = map entry_key demo_entries"
    by (simp add: demo_readable init_state_def)
  with run show ?thesis
    by (simp add: demo_keys)
qed

text \<open>
  C6 as stated fails: it has siblings visited in lexical order. Where \<open>readdirSync\<close>
  lists \<open>b.jpg\<close> before \<open>a.jpg\<close>, the record of \<open>b.jpg\<close> is inserted first.
\<close>

theorem C6_not_lexical:
  "readdirSync demo_env [''root'', ''Ribbons'', ''Velvet''] = Some [''b.jpg'', ''a.jpg''] \<and>
   map (\<lambda>x. doc_filename (snd x))
     (filter (\<lambda>x. doc_subcategory (snd x) = Some ''Velvet'')
        (imagesMeta (snd (run_script demo_env init_state)))) = [''b.jpg'', ''a.jpg''] \<and>
   \<not> sorted [''b.jpg'', ''a.jpg'']"
proof -
  from demo_run obtain s' where run: "run_script demo_env init_state = (0, s')"
    and keys: "map (\<lambda>x. doc_key (snd x)) (imagesMeta s') = map entry_key demo_entries"
    by blast
  have "map (\<lambda>x. doc_filename (snd x))
     (filter (\<lambda>x. doc_subcategory (snd x) = Some ''Velvet'') (imagesMeta s')) =
     [''b.jpg'', ''a.jpg'']"
    unfolding filenames_by_key keys demo_keys by simp
  moreover have "readdirSync demo_env [''root'', ''Ribbons'', ''Velvet''] =
      Some [''b.jpg'', ''a.jpg'']"
    by (simp add: demo_env_def demo_listing_def)
  moreover have "\<not> sorted [''b.jpg'', ''a.jpg'']"
    by simp
  ultimately show ?thesis
    by (simp add: run)
qed

text \<open>
  C8 (as amended). A run that completes prints a fixed completion line, which carries
  no count. The counts can be read off the lines printed per file: between the
  connection line and the completion line there is one success line for every record
  inserted, which is one for every readable file of the walk, and one skip line for
  every file skipped at the read.
\<close>

theorem C8_console_counts:
  assumes "walker env = (es, flt)" and "run_script env s = (0, s')"
  shows "\<exists>ds ls. imagesMeta s' = imagesMeta s @ ds \<and>
     console s' = console s @ Connected_line # ls @ [Complete_line] \<and>
     length (filter is_success_line ls) = length ds \<and>
     length ds = length (filter (readable env) es) \<and>
     length (filter is_skip_line ls) = length (filter (\<lambda>t. \<not> readable env t) es)"
proof -
  from run_script_progress [OF assms] obtain ds ls where
    a: "imagesMeta s' = imagesMeta s @ ds"
    "console s' = console s @ Connected_line # ls @ [Complete_line]"
    "length (filter is_success_line ls) = length ds"
    "length (filter is_skip_line ls) = length (filter (\<lambda>t. \<not> readable env t) es)"
    and k: "map (\<lambda>x. doc_key (snd x)) ds = map entry_key (filter (readable env) es)"
    by auto
  from k have "length ds = length (filter (readable env) es)"
    using length_map by metis
  with a show ?thesis by blast
qed

theorem C8_console_counts_witness:
  "fst (run_script (single_env True) init_state) = 0 \<and>
   (\<exists>ls. console (snd (run_script (single_env True) init_state)) =
        Connected_line # ls @ [Complete_line] \<and>
      length (filter is_success_line ls) = 1 \<and> length (filter is_skip_line ls) = 0) \<and>
   length (imagesMeta (snd (run_script (single_env True) init_state))) = 1"
proof -
  from single_run_ingested obtain s' where
    run: "run_script (single_env True) init_state = (0, s')"
    by blast
  have r: "filter (readable (single_env True))
      [([''root'', ''Laces'', ''x.JPG''], ''Laces'', None, None)] =
      [([''root'', ''Laces'', ''x.JPG''], ''Laces'', None, None)]"
    by (simp add: readable_def single_env_def demo_files_def)
  have nr: "filter (\<lambda>t. \<not> readable (single_env True) t)
      [([''root'', ''Laces'', ''x.JPG''], ''Laces'', None, None)] = []"
    by (simp add: readable_def single_env_def demo_files_def)
  from C8_console_counts [OF single_walker run] obtain ds ls where
    a: "imagesMeta s' = ds" "console s' = Connected_line # ls @ [Complete_line]"
    "length (filter is_success_line ls) = 1" "length ds = 1"
    "length (filter is_skip_line ls) = 0"
    unfolding r nr by (auto simp: init_state_def)
  show ?thesis
    unfolding run using a by auto
qed

text \<open>
  C8 as stated fails: it has the run report a count of processed and of skipped files.
  A run that ingests its one file and a run that skips its one file both exit with
  status 0 and print the same lines apart from those of the file itself: the
  connection line and the completion line.
\<close>

theorem C8_no_summary_counts:
  "fst (run_script (single_env True) init_state) = 0 \<and>
   fst (run_script (single_env False) init_state) = 0 \<and>
   console (snd (run_script (single_env True) init_state)) =
     [Connected_line, Processing_line ''x.JPG'' ''Laces'' None None, Success_line ''x.JPG'',
      Complete_line] \<and>
   console (snd (run_script (single_env False) init_state)) =
     [Connected_line, Processing_line ''x.JPG'' ''Laces'' None None, Skip_line ''x.JPG'',
      Complete_line] \<and>
   length (imagesMeta (snd (run_script (single_env True) init_state))) = 1 \<and>
   length (imagesMeta (snd (run_script (single_env False) init_state))) = 0 \<and>
   filter (\<lambda>l. \<not> is_file_line l) (console (snd (run_script (single_env True) init_state))) =
   filter (\<lambda>l. \<not> is_file_line l) (console (snd (run_script (single_env False) init_state)))"
proof -
  from single_run_ingested obtain s1 where
    a: "run_script (single_env True) init_state = (0, s1)"
    "console s1 = [Connected_line, Processing_line ''x.JPG'' ''Laces'' None None,
       Success_line ''x.JPG'', Complete_line]" "length (imagesMeta s1) = 1"
    by blast
  from single_run_skipped obtain s2 where
    b: "run_script (single_env False) init_state = (0, s2)"
    "console s2 = [Connected_line, Processing_line ''x.JPG'' ''Laces'' None None,
       Skip_line ''x.JPG'', Complete_line]" "length (imagesMeta s2) = 0"
    by blast
  from a b show ?thesis by simp
qed

subsection \<open>The walk\<close>

text \<open>
  C5. What \<open>walkAndUpload\<close> does for one subcategory whose directories are
  \<open>subsubdirs\<close> is the orchestrator run over the tuples the walker yields for it, and
  every record it inserts is the record of one of these tuples. When the subcategory
  has a sub-subdirectory, every tuple is a file inside one of the sub-subdirectories,
  labelled with it (and, when these can be listed, the tuples are exactly their image
  files, in order): an image lying directly in the subcategory is not among them and
  gets no record. When it has none, the tuples are the image files of the subcategory
  itself, with the sub-subcategory absent.
\<close>

theorem C5_loose_files_skipped:
  assumes ld: "list_dirs env (categoryPath @ [subcat]) = Some subsubdirs"
    and run: "walk_subcategory env categoryPath category subcat s = (r, s')"
  shows "(\<exists>ds. imagesMeta s' = imagesMeta s @ ds \<and>
        set (map (\<lambda>x. doc_key (snd x)) ds)
          \<subseteq> entry_key ` set (fst (subcategory_entries env categoryPath category subcat))) \<and>
     (r, s') = ingest env (subcategory_entries env categoryPath category subcat) s \<and>
     (subsubdirs \<noteq> [] \<longrightarrow>
        (\<forall>t \<in> set (fst (subcategory_entries env categoryPath category subcat)).
           \<exists>subsub f. subsub \<in> set subsubdirs \<and> is_image_name f \<and>
             t = (categoryPath @ [subcat, subsub, f], category, Some subcat, Some subsub)) \<and>
        ((\<forall>subsub \<in> set subsubdirs.
            readdirSync env (categoryPath @ [subcat, subsub]) \<noteq> None) \<longrightarrow>
         subcategory_entries env categoryPath category subcat =
           (concat (map (\<lambda>subsub.
              map (\<lambda>f. (categoryPath @ [subcat, subsub, f], category, Some subcat, Some subsub))
                (filter is_image_name (the (readdirSync env (categoryPath @ [subcat, subsub])))))
              subsubdirs), False))) \<and>
     (subsubdirs = [] \<longrightarrow>
        (\<forall>names. readdirSync env (categoryPath @ [subcat]) = Some names \<longrightarrow>
           subcategory_entries env categoryPath category subcat =
             (map (\<lambda>f. (categoryPath @ [subcat, f], category, Some subcat, None))
                (filter is_image_name names), False)))"
proof -
  let ?sub = "categoryPath @ [subcat]"
  let ?leaf = "\<lambda>subsub. leaf_entries env (?sub @ [subsub]) category (Some subcat) (Some subsub)"
  have ing: "(r, s') = ingest env (subcategory_entries env categoryPath category subcat) s"
    using run by (simp add: walk_subcategory_ingest)
  from ingest_docs [OF ing [symmetric]]
  have docs: "\<exists>ds. imagesMeta s' = imagesMeta s @ ds \<and>
        set (map (\<lambda>x. doc_key (snd x)) ds)
          \<subseteq> entry_key ` set (fst (subcategory_entries env categoryPath category subcat))" .
  have deep: "subcategory_entries env categoryPath category subcat = walk_concat (map ?leaf subsubdirs)"
    if "subsubdirs \<noteq> []"
    using ld that by (simp add: subcategory_entries_def path_join_def)
  have only: "\<exists>subsub f. subsub \<in> set subsubdirs \<and> is_image_name f \<and>
             t = (categoryPath @ [subcat, subsub, f], category, Some subcat, Some subsub)"
    if ne: "subsubdirs \<noteq> []"
      and t: "t \<in> set (fst (subcategory_entries env categoryPath category subcat))" for t
  proof -
    from t deep [OF ne] have "t \<in> set (fst (walk_concat (map ?leaf subsubdirs)))"
      by simp
    from walk_concat_member [OF this] obtain subsub where
      ss: "subsub \<in> set subsubdirs" and "t \<in> set (fst (?leaf subsub))"
      by auto
    from leaf_entries_member [OF this(2)] obtain f where
      "is_image_name f" "t = (categoryPath @ [subcat, subsub, f], category, Some subcat, Some subsub)"
      by auto
    with ss show ?thesis by blast
  qed
  have exact: "subcategory_entries env categoryPath category subcat =
           (concat (map (\<lambda>subsub.
              map (\<lambda>f. (categoryPath @ [subcat, subsub, f], category, Some subcat, Some subsub))
                (filter is_image_name (the (readdirSync env (categoryPath @ [subcat, subsub])))))
              subsubdirs), False)"
    if ne: "subsubdirs \<noteq> []"
      and listed: "\<forall>subsub \<in> set subsubdirs.
            readdirSync env (categoryPath @ [subcat, subsub]) \<noteq> None"
  proof -
    have leaf: "?leaf subsub =
        (map (\<lambda>f. (categoryPath @ [subcat, subsub, f], category, Some subcat, Some subsub))
          (filter is_image_name (the (readdirSync env (categoryPath @ [subcat, subsub])))), False)"
      if "subsub \<in> set subsubdirs" for subsub
      using that listed leaf_entries_listed [of env "?sub @ [subsub]"] by auto
    then have "\<forall>w \<in> set (map ?leaf subsubdirs). \<not> snd w"
      by auto
    from walk_concat_exact [OF this] deep [OF ne] leaf show ?thesis
      by (simp add: comp_def cong: map_cong)
  qed
  have flat: "subcategory_entries env categoryPath category subcat =
             (map (\<lambda>f. (categoryPath @ [subcat, f], category, Some subcat, None))
                (filter is_image_name names), False)"
    if "subsubdirs = []" and "readdirSync env (categoryPath @ [subcat]) = Some names" for names
    using ld that by (simp add: subcategory_entries_def path_join_def leaf_entries_listed)
  from docs ing only exact flat show ?thesis
    by blast
qed

theorem C5_loose_files_skipped_witness:
  "list_dirs demo_env [''root'', ''Ribbons'', ''Satin''] = Some [''Cotton''] \<and>
   readdirSync demo_env [''root'', ''Ribbons'', ''Satin''] = Some [''loose.png'', ''Cotton''] \<and>
   is_image_name ''loose.png'' \<and>
   subcategory_entries demo_env [''root'', ''Ribbons''] ''Ribbons'' ''Satin'' =
     ([([''root'', ''Ribbons'', ''Satin'', ''Cotton'', ''c.webp''], ''Ribbons'', Some ''Satin'',
        Some ''Cotton'')], False) \<and>
   set (map (\<lambda>x. doc_key (snd x))
       (imagesMeta (snd (walk_subcategory demo_env [''root'', ''Ribbons''] ''Ribbons'' ''Satin''
          init_state))))
     \<subseteq> {(''c.webp'', ''Ribbons'', Some ''Satin'', Some ''Cotton'')} \<and>
   list_dirs demo_env [''root'', ''Ribbons'', ''Velvet''] = Some [] \<and>
   subcategory_entries demo_env [''root'', ''Ribbons''] ''Ribbons'' ''Velvet'' =
     ([([''root'', ''Ribbons'', ''Velvet'', ''b.jpg''], ''Ribbons'', Some ''Velvet'', None),
       ([''root'', ''Ribbons'', ''Velvet'', ''a.jpg''], ''Ribbons'', Some ''Velvet'', None)],
      False)"
proof -
  note satin = C5_loose_files_skipped [OF demo_satin(1) surjective_pairing,
      where category = "''Ribbons''" and s = init_state]
  note velvet = C5_loose_files_skipped [OF demo_velvet(1) surjective_pairing,
      where category = "''Ribbons''" and s = init_state]
  from satin have s: "subcategory_entries demo_env [''root'', ''Ribbons''] ''Ribbons'' ''Satin'' =
     ([([''root'', ''Ribbons'', ''Satin'', ''Cotton'', ''c.webp''], ''Ribbons'', Some ''Satin'',
        Some ''Cotton'')], False)"
    by (simp add: demo_satin)
  from satin obtain ds where
    "imagesMeta (snd (walk_subcategory demo_env [''root'', ''Ribbons''] ''Ribbons'' ''Satin''
       init_state)) = imagesMeta init_state @ ds"
    "set (map (\<lambda>x. doc_key (snd x)) ds)
       \<subseteq> entry_key ` set (fst (subcategory_entries demo_env [''root'', ''Ribbons'']
           ''Ribbons'' ''Satin''))"
    by blast
  then have "set (map (\<lambda>x. doc_key (snd x))
       (imagesMeta (snd (walk_subcategory demo_env [''root'', ''Ribbons''] ''Ribbons'' ''Satin''
          init_state))))
     \<subseteq> {(''c.webp'', ''Ribbons'', Some ''Satin'', Some ''Cotton'')}"
    unfolding s by (simp add: init_state_def entry_key_def basename_def string_or_null_def)
  moreover from velvet have
    "subcategory_entries demo_env [''root'', ''Ribbons''] ''Ribbons'' ''Velvet'' =
     ([([''root'', ''Ribbons'', ''Velvet'', ''b.jpg''], ''Ribbons'', Some ''Velvet'', None),
       ([''root'', ''Ribbons'', ''Velvet'', ''a.jpg''], ''Ribbons'', Some ''Velvet'', None)],
      False)"
    by (simp add: demo_velvet)
  ultimately show ?thesis
    using s demo_satin demo_velvet by simp
qed

subsection \<open>The file route\<close>

text \<open>
  C9. The route answers 400 to an id that \<open>ObjectId\<close> rejects, 404 when no file document
  matches, streams the bytes with the stored content type and the cache directive, and
  answers 500 when the download stream faults before its first chunk (lemmas
  \<open>get_file_bad_id\<close>, \<open>get_file_not_found\<close>, \<open>get_file_streamed\<close> and
  \<open>get_file_fault_at_start\<close>). It does not answer 500 when the stream faults after a
  chunk was written: for a stored blob whose stream emits two chunks and then
  \<open>error\<close>, the status line already sent is 200, \<open>res.sendStatus(500)\<close> throws inside
  the listener, and the response is left open with the two chunks as its body.
\<close>

theorem C9_mid_transfer_fault:
  "get_file (demo_server [[82, 20], [5]] True) ''65f1a2b3c4d5e6f708192a3b'' new_response =
     (\<lparr>statusCode = 500, sent_status = Some 200,
       res_headers = [(''Cache-Control'', ''public, max-age=31536000, immutable''),
         (''Content-Type'', ''image/webp'')],
       res_body = [Bytes [82, 20], Bytes [5]], res_ended = False\<rparr>, Listener_threw)"
  by (simp add: get_file_def demo_server_def demo_file_def setHeader_def sendStatus_def
      send_text_def write_part_def flush_head_def new_response_def Let_def)

end
